theory Spec2Isabelle
  imports
    Main
    "HOL-Library.Char_ord"
    "HOL-Library.List_Lexorder"
    "HOL-Library.Sublist"
    "HOL-Library.AList"
begin

section \<open>The gist create command (pkg/cmd/gist/create/create.go)\<close>

text \<open>
  Go strings are byte sequences, compared bytewise: they are modelled as \<open>string\<close>
  (a \<open>char list\<close>), ordered lexicographically over the byte order of \<open>char\<close>.
\<close>

subsection \<open>Errors\<close>

text \<open>
  \<open>api.HTTPError\<close> is declared outside this file. The command reads only its
  \<open>OAuthScopes\<close> field; \<open>ErrorText\<close> stands for what its \<open>Error\<close> method returns.
\<close>

record HTTPError =
  OAuthScopes :: string
  ErrorText :: string

text \<open>
  A Go \<open>error\<close> value: \<open>ErrorString\<close> is what \<open>errors.New\<close> and a \<open>fmt.Errorf\<close>
  without \<open>%w\<close> build, \<open>WrapError m e\<close> is what \<open>fmt.Errorf\<close> with \<open>%w\<close> builds (the
  formatted message \<open>m\<close> and the wrapped error \<open>e\<close>), \<open>APIError\<close> is an
  \<open>api.HTTPError\<close> value.
\<close>

datatype error =
    ErrorString string
  | WrapError string error
  | APIError HTTPError

fun Error :: "error \<Rightarrow> string" where
  "Error (ErrorString s) = s"
| "Error (WrapError s e) = s"
| "Error (APIError h) = ErrorText h"

text \<open>\<open>errors.As(err, &httpError)\<close>: the first \<open>api.HTTPError\<close> on the chain of wrapped errors.\<close>

fun errors_As :: "error \<Rightarrow> HTTPError option" where
  "errors_As (APIError h) = Some h"
| "errors_As (WrapError s e) = errors_As e"
| "errors_As (ErrorString s) = None"

text \<open>\<open>strings.Contains\<close>: the second string occurs in the first as a contiguous run.\<close>

fun Contains :: "string \<Rightarrow> string \<Rightarrow> bool" where
  "Contains [] substr = (substr = [])"
| "Contains (c # cs) substr = (prefix substr (c # cs) \<or> Contains cs substr)"

subsection \<open>Formatting and paths\<close>

text \<open>The character of a decimal digit \<open>d < 10\<close>.\<close>

definition digit_char :: "nat \<Rightarrow> char" where
  "digit_char d = ''0123456789'' ! d"

text \<open>The verb \<open>%d\<close> on a loop index, which is never negative: its decimal digits.\<close>

fun Itoa :: "nat \<Rightarrow> string" where
  "Itoa n = (if n < 10 then [digit_char n] else Itoa (n div 10) @ [digit_char (n mod 10)])"

declare Itoa.simps [simp del]

definition synthetic_name :: "nat \<Rightarrow> string" where
  "synthetic_name i = ''gistfile'' @ Itoa i @ ''.txt''"

text \<open>
  \<open>path.Base\<close> of the Go library: the empty path gives \<open>.\<close>, trailing slashes are
  stripped, what follows the last remaining slash is kept, and a path of slashes only
  gives \<open>/\<close>.
\<close>

definition Base :: "string \<Rightarrow> string" where
  "Base p =
     (if p = [] then ''.''
      else
        let p1 = rev (dropWhile (\<lambda>c. c = CHR ''/'') (rev p));
            p2 = rev (takeWhile (\<lambda>c. c \<noteq> CHR ''/'') (rev p1))
        in if p2 = [] then ''/'' else p2)"

subsection \<open>The FileSet and the outside world\<close>

text \<open>
  The Go \<open>map[string]string\<close> is an association list with distinct keys; the assignment
  \<open>fs[filename] = v\<close> is \<open>AList.update\<close>, which replaces the value of a key already
  present and adds a new key otherwise. \<open>len(files)\<close> is the length of the list. The
  order in which \<open>range\<close> visits the keys is not fixed by Go; here it is the order of
  the list, and the results below that hold for every order say so.
\<close>

type_synonym FileSet = "(string \<times> string) list"

datatype stdin_call = CallReadAll | CallClose

text \<open>
  The \<open>io.ReadCloser\<close> handed to the collector: the state of the stream, of a type the
  caller chooses, and the calls made on it so far, oldest first.
\<close>

record 's ReadCloser =
  state :: 's
  calls :: "stdin_call list"

record Gist =
  HTMLURL :: string

text \<open>
  What the command calls and this file does not define: \<open>ioutil.ReadAll\<close> and \<open>Close\<close> on
  the standard input (the error that \<open>Close\<close> returns is dropped by the code),
  \<open>ioutil.ReadFile\<close>, the colour functions of \<open>utils\<close>, the default host, and the remote
  call \<open>apiCreate\<close>.
\<close>

record ('s, 'c) env =
  ReadAll :: "'s \<Rightarrow> (error + string) \<times> 's"
  Close :: "'s \<Rightarrow> 's"
  ReadFile :: "string \<Rightarrow> error + string"
  Gray :: "string \<Rightarrow> string"
  Red :: "string \<Rightarrow> string"
  Green :: "string \<Rightarrow> string"
  OverridableDefault :: string
  apiCreate :: "'c \<Rightarrow> string \<Rightarrow> string \<Rightarrow> bool \<Rightarrow> FileSet \<Rightarrow> error + Gist"

text \<open>The streams: each output stream is the list of the writes made to it, oldest first.\<close>

record 's IOStreams =
  In :: "'s ReadCloser"
  Out :: "string list"
  ErrOut :: "string list"

text \<open>\<open>HttpClient\<close> is the factory of the options; it is modelled by what a call of it returns.\<close>

record ('s, 'c) CreateOptions =
  IO :: "'s IOStreams"
  Description :: string
  Public :: bool
  Filenames :: "string list"
  HttpClient :: "error + 'c"

subsection \<open>processFiles\<close>

text \<open>
  The loop of \<open>processFiles\<close>, from index \<open>i\<close> on. The map that the Go function returns
  beside a non-nil error is dropped: its only caller never reads it.
\<close>

fun processFiles_loop ::
  "('s, 'c) env \<Rightarrow> nat \<Rightarrow> string list \<Rightarrow> FileSet \<Rightarrow> 's ReadCloser
     \<Rightarrow> (error + FileSet) \<times> 's ReadCloser" where
  "processFiles_loop env i [] fs stdin = (Inr fs, stdin)"
| "processFiles_loop env i (f # rest) fs stdin =
     (if f = ''-'' then
        (case ReadAll env (state stdin) of
           (Inl err, s1) \<Rightarrow>
             (Inl (WrapError (''failed to read from stdin: '' @ Error err) err),
              \<lparr>state = s1, calls = calls stdin @ [CallReadAll]\<rparr>)
         | (Inr content, s1) \<Rightarrow>
             processFiles_loop env (Suc i) rest
               (AList.update (synthetic_name i) content fs)
               \<lparr>state = Close env s1, calls = calls stdin @ [CallReadAll, CallClose]\<rparr>)
      else
        (case ReadFile env f of
           Inl err \<Rightarrow>
             (Inl (WrapError (''failed to read file '' @ f @ '': '' @ Error err) err), stdin)
         | Inr content \<Rightarrow>
             processFiles_loop env (Suc i) rest (AList.update (Base f) content fs) stdin))"

definition processFiles ::
  "('s, 'c) env \<Rightarrow> 's ReadCloser \<Rightarrow> string list \<Rightarrow> (error + FileSet) \<times> 's ReadCloser" where
  "processFiles env stdin filenames =
     (if length filenames = 0 then (Inl (ErrorString ''no files passed''), stdin)
      else processFiles_loop env 0 filenames [] stdin)"

subsection \<open>guessGistName\<close>

definition is_digit :: "char \<Rightarrow> bool" where
  "is_digit c = (CHR ''0'' \<le> c \<and> c \<le> CHR ''9'')"

fun strip_prefix :: "string \<Rightarrow> string \<Rightarrow> string option" where
  "strip_prefix [] s = Some s"
| "strip_prefix (p # ps) [] = None"
| "strip_prefix (p # ps) (c # cs) = (if p = c then strip_prefix ps cs else None)"

text \<open>
  The regular expression \<open>^gistfile\d+\.txt$\<close> on the whole string: the literal prefix,
  then one or more ASCII digits, then the literal \<open>.txt\<close> up to the end of the text. As
  the dot is no digit, the longest run of digits is the only one that can match.
\<close>

definition re_MatchString :: "string \<Rightarrow> bool" where
  "re_MatchString k =
     (case strip_prefix ''gistfile'' k of
        None \<Rightarrow> False
      | Some r \<Rightarrow> takeWhile is_digit r \<noteq> [] \<and> dropWhile is_digit r = ''.txt'')"

text \<open>
  The loop over the keys appends those that the expression does not match; the list is
  sorted with \<open>sort.Strings\<close>, ascending in the bytewise order, and its first element is
  the name.
\<close>

definition guessGistName :: "FileSet \<Rightarrow> string" where
  "guessGistName files =
     (let filenames = filter (\<lambda>k. \<not> re_MatchString k) (map fst files)
      in if length filenames > 0 then sort filenames ! 0 else '''')"

subsection \<open>createRun\<close>

text \<open>
  The body of \<open>createRun\<close> is written step by step: \<open>default_fileArgs\<close> is the defaulting
  of the list of filenames (lines 91 to 94), \<open>processMessage\<close> and \<open>completionMessage\<close> are
  the two strings that lines 103 to 112 compute from the FileSet, \<open>scope_message\<close> is the
  text of line 127, and \<open>publish_error\<close> is the error built at lines 123 to 131.
\<close>

definition default_fileArgs :: "string list \<Rightarrow> string list" where
  "default_fileArgs filenames = (if length filenames = 0 then [''-''] else filenames)"

definition processMessage :: "FileSet \<Rightarrow> string" where
  "processMessage files =
     (let gistName = guessGistName files
      in if gistName \<noteq> '''' then
           (if length files > 1 then ''Creating gist with multiple files''
            else ''Creating gist '' @ gistName)
         else ''Creating gist...'')"

definition completionMessage :: "FileSet \<Rightarrow> string" where
  "completionMessage files =
     (let gistName = guessGistName files
      in if gistName \<noteq> '''' then ''Created gist '' @ gistName else ''Created gist'')"

definition scope_message :: string where
  "scope_message =
     ''This command requires the '' @ [CHR 0x27] @ ''gist'' @ [CHR 0x27] @ '' OAuth scope.''
     @ [CHR 0x0A]
     @ ''Please re-authenticate by doing `gh config set -h github.com oauth_token ''
     @ [CHR 0x27, CHR 0x27] @ ''` and running the command again.''"

text \<open>How \<open>createRun\<close> turns the error of the remote call into the error it returns.\<close>

definition publish_error :: "('s, 'c) env \<Rightarrow> error \<Rightarrow> error" where
  "publish_error env err =
     (case errors_As err of
        Some httpError \<Rightarrow>
          if OAuthScopes httpError \<noteq> '''' \<and> \<not> Contains (OAuthScopes httpError) ''gist''
          then ErrorString scope_message
          else WrapError (Red env ''X'' @ '' Failed to create gist: '' @ Error err) err
      | None \<Rightarrow> WrapError (Red env ''X'' @ '' Failed to create gist: '' @ Error err) err)"

text \<open>
  \<open>createRun\<close> returns its error (\<open>None\<close> for Go's \<open>nil\<close>) and the streams as it leaves
  them.
\<close>

definition createRun ::
  "('s, 'c) env \<Rightarrow> ('s, 'c) CreateOptions \<Rightarrow> error option \<times> 's IOStreams" where
  "createRun env opts =
     (let fileArgs = default_fileArgs (Filenames opts)
      in case processFiles env (In (IO opts)) fileArgs of
           (Inl err, stdin') \<Rightarrow>
             (Some (WrapError (''failed to collect files for posting: '' @ Error err) err),
              (IO opts)\<lparr>In := stdin'\<rparr>)
         | (Inr files, stdin') \<Rightarrow>
             let io1 = (IO opts)
                   \<lparr>In := stdin',
                    ErrOut := ErrOut (IO opts)
                      @ [Gray env ''-'' @ '' '' @ processMessage files @ [CHR 0x0A]]\<rparr>
             in (case HttpClient opts of
                   Inl err \<Rightarrow> (Some err, io1)
                 | Inr httpClient \<Rightarrow>
                     (case apiCreate env httpClient (OverridableDefault env)
                             (Description opts) (Public opts) files of
                        Inl err \<Rightarrow> (Some (publish_error env err), io1)
                      | Inr gist \<Rightarrow>
                          (None,
                           io1\<lparr>ErrOut := ErrOut io1
                                  @ [Green env ''???'' @ '' '' @ completionMessage files @ [CHR 0x0A]],
                               Out := Out io1 @ [HTMLURL gist @ [CHR 0x0A]]\<rparr>))))"

subsection \<open>Vocabulary of the properties\<close>

text \<open>The keys of a FileSet that the pattern of \<open>guessGistName\<close> does not match.\<close>

definition real_names :: "FileSet \<Rightarrow> string set" where
  "real_names files = {k \<in> fst ` set files. \<not> re_MatchString k}"

text \<open>The key under which the loop of \<open>processFiles\<close> stores the token \<open>f\<close> met at index \<open>i\<close>.\<close>

definition key_of :: "nat \<Rightarrow> string \<Rightarrow> string" where
  "key_of i f = (if f = ''-'' then synthetic_name i else Base f)"

subsection \<open>Concrete runs\<close>

text \<open>
  A small world on which the functions are evaluated: a few files, a standard input that
  is a buffer behind a closer that does nothing (a read returns what is left and leaves
  nothing, and succeeds also after \<open>Close\<close>), colour functions that add no colour, and
  a remote call that succeeds.
\<close>

definition example_files :: "(string \<times> string) list" where
  "example_files =
     [(''src/a/main.go'', ''package a''),
      (''src/b/main.go'', ''package b''),
      (''hello.py'', ''print(1)''),
      (''notes/gistfile5.txt'', ''five''),
      (''gistfile6.txt'', ''six''),
      (''gistfile0.txt'', ''zero'')]"

definition example_ReadFile :: "string \<Rightarrow> error + string" where
  "example_ReadFile f =
     (case map_of example_files f of
        Some content \<Rightarrow> Inr content
      | None \<Rightarrow> Inl (ErrorString (''open '' @ f @ '': no such file or directory'')))"

definition example_gist :: Gist where
  "example_gist = \<lparr>HTMLURL = ''https://gist.github.com/aa5a315d61ae9438b18d''\<rparr>"

definition example_env :: "(string, unit) env" where
  "example_env =
     \<lparr>ReadAll = (\<lambda>s. (Inr s, [])),
      Close = (\<lambda>s. s),
      ReadFile = example_ReadFile,
      Gray = (\<lambda>s. s),
      Red = (\<lambda>s. s),
      Green = (\<lambda>s. s),
      OverridableDefault = ''github.com'',
      apiCreate = (\<lambda>c host desc pub files. Inr example_gist)\<rparr>"

text \<open>The same world with a remote call that fails with an HTTP error of the given scopes.\<close>

definition http_failure :: "string \<Rightarrow> error" where
  "http_failure scopes = APIError \<lparr>OAuthScopes = scopes, ErrorText = ''HTTP 404: Not Found''\<rparr>"

definition failing_env :: "string \<Rightarrow> (string, unit) env" where
  "failing_env scopes =
     example_env\<lparr>apiCreate := (\<lambda>c host desc pub files. Inl (http_failure scopes))\<rparr>"

definition example_stdin :: "string ReadCloser" where
  "example_stdin = \<lparr>state = ''from stdin'', calls = []\<rparr>"

definition example_opts :: "string list \<Rightarrow> (string, unit) CreateOptions" where
  "example_opts filenames =
     \<lparr>IO = \<lparr>In = example_stdin, Out = [], ErrOut = []\<rparr>,
      Description = ''an example'',
      Public = False,
      Filenames = filenames,
      HttpClient = Inr ()\<rparr>"

text \<open>
  A standard input that behaves as an open file does: \<open>Close\<close> marks it closed, and a
  read of a closed stream fails.
\<close>

definition closing_env :: "(string \<times> bool, unit) env" where
  "closing_env =
     \<lparr>ReadAll = (\<lambda>(s, closed).
         if closed then (Inl (ErrorString ''read /dev/stdin: file already closed''), (s, closed))
         else (Inr s, ([], closed))),
      Close = (\<lambda>(s, closed). (s, True)),
      ReadFile = example_ReadFile,
      Gray = (\<lambda>s. s),
      Red = (\<lambda>s. s),
      Green = (\<lambda>s. s),
      OverridableDefault = ''github.com'',
      apiCreate = (\<lambda>c host desc pub files. Inr example_gist)\<rparr>"

definition open_stdin :: "(string \<times> bool) ReadCloser" where
  "open_stdin = \<lparr>state = (''from stdin'', False), calls = []\<rparr>"

section \<open>Properties of guessGistName\<close>

subsection \<open>The pattern and the sorted list\<close>

lemma strip_prefix_Some: "strip_prefix p s = Some r \<longleftrightarrow> s = p @ r"
  by (induction p s rule: strip_prefix.induct) auto

lemma not_digit_dot: "\<not> is_digit CHR ''.''"
  by (simp add: is_digit_def)

lemma re_MatchString_iff:
  "re_MatchString k \<longleftrightarrow>
     (\<exists>ds. ds \<noteq> [] \<and> (\<forall>c \<in> set ds. is_digit c) \<and> k = ''gistfile'' @ ds @ ''.txt'')"
proof
  assume "re_MatchString k"
  then obtain r where r: "strip_prefix ''gistfile'' k = Some r"
    and nonempty: "takeWhile is_digit r \<noteq> []" and rest: "dropWhile is_digit r = ''.txt''"
    by (auto simp: re_MatchString_def split: option.splits)
  have "k = ''gistfile'' @ r"
    using r by (simp only: strip_prefix_Some)
  moreover have "r = takeWhile is_digit r @ ''.txt''"
    using rest takeWhile_dropWhile_id [of is_digit r] by simp
  moreover have "\<forall>c \<in> set (takeWhile is_digit r). is_digit c"
    by (auto dest: set_takeWhileD)
  ultimately show "\<exists>ds. ds \<noteq> [] \<and> (\<forall>c \<in> set ds. is_digit c) \<and> k = ''gistfile'' @ ds @ ''.txt''"
    using nonempty by metis
next
  assume "\<exists>ds. ds \<noteq> [] \<and> (\<forall>c \<in> set ds. is_digit c) \<and> k = ''gistfile'' @ ds @ ''.txt''"
  then obtain ds where ds: "ds \<noteq> []" "\<forall>c \<in> set ds. is_digit c"
    and k: "k = ''gistfile'' @ ds @ ''.txt''"
    by blast
  have sp: "strip_prefix ''gistfile'' k = Some (ds @ ''.txt'')"
    unfolding strip_prefix_Some using k by simp
  have tw: "takeWhile is_digit (ds @ ''.txt'') = ds"
    using ds(2) not_digit_dot by (simp add: takeWhile_append2)
  have dw: "dropWhile is_digit (ds @ ''.txt'') = ''.txt''"
    using ds(2) not_digit_dot by (simp add: dropWhile_append2)
  show "re_MatchString k"
    using sp tw dw ds(1) by (simp add: re_MatchString_def)
qed

lemma sort_nth0_least:
  fixes xs :: "'a::linorder list"
  assumes "xs \<noteq> []"
  shows "sort xs ! 0 \<in> set xs \<and> (\<forall>y \<in> set xs. sort xs ! 0 \<le> y)"
proof (cases "sort xs")
  case Nil
  then have "set (sort xs) = {}" by simp
  with assms show ?thesis by simp
next
  case (Cons z zs)
  have "sorted (z # zs)" using Cons sorted_sort [of xs] by simp
  moreover have "set xs = set (z # zs)" using Cons by (metis set_sort)
  ultimately show ?thesis using Cons by auto
qed


lemma guessGistName_empty:
  "real_names files = {} \<Longrightarrow> guessGistName files = ''''"
  by (auto simp: guessGistName_def real_names_def filter_empty_conv)

lemma guessGistName_least:
  assumes "real_names files \<noteq> {}"
  shows "guessGistName files \<in> real_names files \<and> (\<forall>k \<in> real_names files. guessGistName files \<le> k)"
proof -
  let ?xs = "filter (\<lambda>k. \<not> re_MatchString k) (map fst files)"
  have set: "set ?xs = real_names files" by (auto simp: real_names_def)
  have ne: "?xs \<noteq> []"
  proof
    assume "?xs = []"
    then have "set ?xs = {}" by (simp only: set_empty2 set_empty)
    with set assms show False by simp
  qed
  then have g: "guessGistName files = sort ?xs ! 0"
    by (simp add: guessGistName_def)
  show ?thesis
    unfolding g set [symmetric] by (rule sort_nth0_least [OF ne])
qed

subsection \<open>Synthetic names\<close>

lemma digit_cases:
  "d < 10 \<Longrightarrow> d = 0 \<or> d = 1 \<or> d = 2 \<or> d = 3 \<or> d = 4 \<or> d = 5 \<or> d = 6 \<or> d = 7 \<or> d = 8 \<or> d = (9::nat)"
  by arith

lemma of_char_digit_char:
  assumes "d < 10"
  shows "(of_char (digit_char d) :: nat) = 48 + d"
proof -
  have "\<forall>k \<in> set [0, 1, 2, 3, 4, 5, 6, 7, 8, 9::nat]. (of_char (digit_char k) :: nat) = 48 + k"
    by (simp add: digit_char_def)
  moreover have "d \<in> set [0, 1, 2, 3, 4, 5, 6, 7, 8, 9::nat]"
    using digit_cases [OF assms] by simp
  ultimately show ?thesis by blast
qed

lemma is_digit_digit_char:
  assumes "d < 10"
  shows "is_digit (digit_char d)"
proof -
  have "\<forall>k \<in> set [0, 1, 2, 3, 4, 5, 6, 7, 8, 9::nat]. is_digit (digit_char k)"
    by (simp add: digit_char_def is_digit_def)
  moreover have "d \<in> set [0, 1, 2, 3, 4, 5, 6, 7, 8, 9::nat]"
    using digit_cases [OF assms] by simp
  ultimately show ?thesis by blast
qed

lemma digit_char_inj:
  assumes "a < 10" and "b < 10" and eq: "digit_char a = digit_char b"
  shows "a = b"
proof -
  have "(of_char (digit_char a) :: nat) = of_char (digit_char b)"
    by (simp only: eq)
  then have "48 + a = 48 + b"
    by (simp only: of_char_digit_char [OF assms(1)] of_char_digit_char [OF assms(2)])
  then show ?thesis by simp
qed

lemma Itoa_nonempty: "Itoa n \<noteq> []"
  by (subst Itoa.simps) simp

lemma Itoa_digits: "c \<in> set (Itoa n) \<Longrightarrow> is_digit c"
proof (induction n arbitrary: c rule: Itoa.induct)
  case (1 n)
  show ?case
  proof (cases "n < 10")
    case True
    with "1.prems" show ?thesis
      by (subst (asm) Itoa.simps) (simp add: is_digit_digit_char)
  next
    case False
    with "1.prems" have "c \<in> set (Itoa (n div 10)) \<or> c = digit_char (n mod 10)"
      by (subst (asm) Itoa.simps) auto
    then show ?thesis
      using "1.IH" [OF False] by (auto simp: is_digit_digit_char)
  qed
qed

lemma Itoa_length: "\<not> n < 10 \<Longrightarrow> 2 \<le> length (Itoa n)"
proof -
  assume a: "\<not> n < 10"
  have "length (Itoa (n div 10)) \<noteq> 0" using Itoa_nonempty by simp
  then show ?thesis using a by (subst Itoa.simps) (simp add: Suc_le_eq)
qed

lemma Itoa_inj: "Itoa n = Itoa m \<Longrightarrow> n = m"
proof (induction n arbitrary: m rule: Itoa.induct)
  case (1 n)
  show ?case
  proof (cases "n < 10")
    case n: True
    then have ln: "Itoa n = [digit_char n]" by (subst Itoa.simps) simp
    show ?thesis
    proof (cases "m < 10")
      case True
      then have "Itoa m = [digit_char m]" by (subst Itoa.simps) simp
      with ln "1.prems" n True show ?thesis by (simp add: digit_char_inj)
    next
      case False
      from Itoa_length [OF False] ln "1.prems" show ?thesis by simp
    qed
  next
    case n: False
    then have ln: "Itoa n = Itoa (n div 10) @ [digit_char (n mod 10)]"
      by (subst Itoa.simps) simp
    show ?thesis
    proof (cases "m < 10")
      case True
      then have "Itoa m = [digit_char m]" by (subst Itoa.simps) simp
      with Itoa_length [OF n] "1.prems" show ?thesis by simp
    next
      case False
      then have "Itoa m = Itoa (m div 10) @ [digit_char (m mod 10)]"
        by (subst Itoa.simps) simp
      with ln "1.prems" have eq: "Itoa (n div 10) = Itoa (m div 10)"
        and d: "digit_char (n mod 10) = digit_char (m mod 10)"
        by simp_all
      from "1.IH" [OF n eq] have "n div 10 = m div 10" .
      moreover from d have "n mod 10 = m mod 10" by (simp add: digit_char_inj)
      ultimately show ?thesis by (metis div_mult_mod_eq)
    qed
  qed
qed

lemma synthetic_name_inj: "synthetic_name i = synthetic_name j \<Longrightarrow> i = j"
  by (simp add: synthetic_name_def Itoa_inj)

lemma re_MatchString_synthetic_name: "re_MatchString (synthetic_name i)"
  unfolding re_MatchString_iff synthetic_name_def
  using Itoa_nonempty Itoa_digits by blast


subsection \<open>The chosen name\<close>

lemma real_names_eq: "fst ` set files' = fst ` set files \<Longrightarrow> real_names files' = real_names files"
  by (simp add: real_names_def)

lemma guessGistName_cong:
  assumes "fst ` set files' = fst ` set files"
  shows "guessGistName files' = guessGistName files"
proof (cases "real_names files = {}")
  case True
  then show ?thesis
    using guessGistName_empty [of files] guessGistName_empty [of files'] real_names_eq [OF assms]
    by simp
next
  case False
  have eq: "real_names files' = real_names files" by (rule real_names_eq [OF assms])
  from False eq have ne': "real_names files' \<noteq> {}" by simp
  from guessGistName_least [OF False] guessGistName_least [OF ne'] eq
  have "guessGistName files \<le> guessGistName files'" "guessGistName files' \<le> guessGistName files"
    by auto
  then show ?thesis by simp
qed

text \<open>
  Claim C2. For every FileSet, \<open>guessGistName\<close> returns the empty string when every key
  matches the synthetic pattern, and otherwise the key that is smallest in the
  lexicographic order among those that do not match it. A key matches the pattern exactly
  when it is \<open>gistfile\<close>, one or more decimal digits, and \<open>.txt\<close>, which every name that
  \<open>processFiles\<close> gives to a read of the standard input is. On the keys
  \<open>gistfile0.txt\<close>, \<open>b.py\<close>, \<open>a.py\<close> the result is \<open>a.py\<close>; on the keys
  \<open>gistfile0.txt\<close>, \<open>gistfile1.txt\<close> it is the empty string.
\<close>

theorem guessGistName_smallest_real_name:
  "(if \<forall>k \<in> fst ` set files. re_MatchString k then guessGistName files = ''''
    else guessGistName files \<in> fst ` set files
       \<and> \<not> re_MatchString (guessGistName files)
       \<and> (\<forall>k \<in> fst ` set files. \<not> re_MatchString k \<longrightarrow> guessGistName files \<le> k))
   \<and> (\<forall>k. re_MatchString k \<longleftrightarrow>
          (\<exists>ds. ds \<noteq> [] \<and> (\<forall>c \<in> set ds. is_digit c) \<and> k = ''gistfile'' @ ds @ ''.txt''))
   \<and> (\<forall>n. re_MatchString (synthetic_name n))
   \<and> (fst ` set files = {''gistfile0.txt'', ''b.py'', ''a.py''} \<longrightarrow> guessGistName files = ''a.py'')
   \<and> (fst ` set files = {''gistfile0.txt'', ''gistfile1.txt''} \<longrightarrow> guessGistName files = '''')"
proof (intro conjI)
  show "if \<forall>k \<in> fst ` set files. re_MatchString k then guessGistName files = ''''
    else guessGistName files \<in> fst ` set files
       \<and> \<not> re_MatchString (guessGistName files)
       \<and> (\<forall>k \<in> fst ` set files. \<not> re_MatchString k \<longrightarrow> guessGistName files \<le> k)"
  proof (cases "\<forall>k \<in> fst ` set files. re_MatchString k")
    case True
    then have "real_names files = {}" by (auto simp: real_names_def)
    with True show ?thesis by (simp add: guessGistName_empty)
  next
    case False
    then have "real_names files \<noteq> {}" by (auto simp: real_names_def)
    from guessGistName_least [OF this] False show ?thesis
      by (auto simp: real_names_def)
  qed
next
  show "\<forall>k. re_MatchString k \<longleftrightarrow>
          (\<exists>ds. ds \<noteq> [] \<and> (\<forall>c \<in> set ds. is_digit c) \<and> k = ''gistfile'' @ ds @ ''.txt'')"
    using re_MatchString_iff by blast
next
  show "\<forall>n. re_MatchString (synthetic_name n)"
    using re_MatchString_synthetic_name by blast
next
  show "fst ` set files = {''gistfile0.txt'', ''b.py'', ''a.py''} \<longrightarrow> guessGistName files = ''a.py''"
  proof
    assume keys: "fst ` set files = {''gistfile0.txt'', ''b.py'', ''a.py''}"
    have "real_names files = {''b.py'', ''a.py''}"
      unfolding real_names_def keys by (auto simp: re_MatchString_def is_digit_def)
    moreover from this have "real_names files \<noteq> {}" by simp
    ultimately have "guessGistName files \<in> {''b.py'', ''a.py''}" "guessGistName files \<le> ''a.py''"
      using guessGistName_least [of files] by auto
    then show "guessGistName files = ''a.py''" by auto
  qed
next
  show "fst ` set files = {''gistfile0.txt'', ''gistfile1.txt''} \<longrightarrow> guessGistName files = ''''"
  proof
    assume keys: "fst ` set files = {''gistfile0.txt'', ''gistfile1.txt''}"
    have "real_names files = {}"
      unfolding real_names_def keys by (auto simp: re_MatchString_def is_digit_def)
    then show "guessGistName files = ''''" by (rule guessGistName_empty)
  qed
qed

theorem guessGistName_smallest_real_name_witness:
  "fst ` set [(''gistfile0.txt'', ''from stdin''), (''b.py'', ''print(2)''), (''a.py'', ''print(1)'')]
     = {''gistfile0.txt'', ''b.py'', ''a.py''}
   \<and> \<not> (\<forall>k \<in> fst ` set [(''gistfile0.txt'', ''from stdin''), (''b.py'', ''print(2)''), (''a.py'', ''print(1)'')].
          re_MatchString k)
   \<and> \<not> re_MatchString ''b.py''
   \<and> guessGistName [(''gistfile0.txt'', ''from stdin''), (''b.py'', ''print(2)''), (''a.py'', ''print(1)'')] = ''a.py''
   \<and> guessGistName [(''gistfile0.txt'', ''from stdin''), (''b.py'', ''print(2)''), (''a.py'', ''print(1)'')] \<le> ''b.py''
   \<and> fst ` set [(''gistfile0.txt'', ''one''), (''gistfile1.txt'', ''two'')] = {''gistfile0.txt'', ''gistfile1.txt''}
   \<and> re_MatchString ''gistfile0.txt'' \<and> re_MatchString ''gistfile1.txt''
   \<and> guessGistName [(''gistfile0.txt'', ''one''), (''gistfile1.txt'', ''two'')] = ''''"
  using guessGistName_smallest_real_name
          [of "[(''gistfile0.txt'', ''from stdin''), (''b.py'', ''print(2)''), (''a.py'', ''print(1)'')]"]
        guessGistName_smallest_real_name
          [of "[(''gistfile0.txt'', ''one''), (''gistfile1.txt'', ''two'')]"]
  by (simp add: re_MatchString_def is_digit_def)

text \<open>
  Claim C9. The result of \<open>guessGistName\<close> is the empty string or one of the keys of the
  FileSet, and it depends on the set of keys only: two FileSets with the same keys, in
  whatever order and with whatever contents, give the same result.
\<close>

theorem guessGistName_key_or_empty:
  "(guessGistName files = '''' \<or> guessGistName files \<in> fst ` set files)
   \<and> (\<forall>files'. fst ` set files' = fst ` set files \<longrightarrow> guessGistName files' = guessGistName files)"
proof (intro conjI allI impI)
  show "guessGistName files = '''' \<or> guessGistName files \<in> fst ` set files"
  proof (cases "real_names files = {}")
    case True
    then show ?thesis by (simp add: guessGistName_empty)
  next
    case False
    from guessGistName_least [OF False] show ?thesis by (auto simp: real_names_def)
  qed
next
  fix files' :: FileSet
  assume "fst ` set files' = fst ` set files"
  then show "guessGistName files' = guessGistName files" by (rule guessGistName_cong)
qed

theorem guessGistName_key_or_empty_witness:
  "fst ` set [(''a.py'', ''print(1)''), (''gistfile0.txt'', ''from stdin''), (''b.py'', ''print(2)'')]
     = fst ` set [(''gistfile0.txt'', ''from stdin''), (''b.py'', ''print(2)''), (''a.py'', ''print(1)'')]
   \<and> guessGistName [(''a.py'', ''print(1)''), (''gistfile0.txt'', ''from stdin''), (''b.py'', ''print(2)'')]
     = guessGistName [(''gistfile0.txt'', ''from stdin''), (''b.py'', ''print(2)''), (''a.py'', ''print(1)'')]
   \<and> guessGistName [(''gistfile0.txt'', ''from stdin''), (''b.py'', ''print(2)''), (''a.py'', ''print(1)'')]
     \<in> fst ` set [(''gistfile0.txt'', ''from stdin''), (''b.py'', ''print(2)''), (''a.py'', ''print(1)'')]"
  using guessGistName_key_or_empty
          [of "[(''gistfile0.txt'', ''from stdin''), (''b.py'', ''print(2)''), (''a.py'', ''print(1)'')]"]
  by (simp add: guessGistName_def re_MatchString_def is_digit_def insert_commute)

section \<open>Properties of processFiles\<close>

subsection \<open>The loop\<close>


lemma loop_append:
  "processFiles_loop env i (xs @ ys) fs stdin =
     (case processFiles_loop env i xs fs stdin of
        (Inl e, s) \<Rightarrow> (Inl e, s)
      | (Inr fs', s) \<Rightarrow> processFiles_loop env (i + length xs) ys fs' s)"
  by (induction xs arbitrary: i fs stdin) (auto split: prod.splits sum.splits)

lemma loop_distinct:
  "processFiles_loop env i fns fs stdin = (Inr fs', stdin') \<Longrightarrow> distinct (map fst fs)
     \<Longrightarrow> distinct (map fst fs')"
  by (induction fns arbitrary: i fs stdin)
     (auto split: prod.splits sum.splits if_splits simp: distinct_update)

lemma loop_keys:
  "processFiles_loop env i fns fs stdin = (Inr fs', stdin')
     \<Longrightarrow> fst ` set fs' = fst ` set fs \<union> {key_of (i + n) (fns ! n) | n. n < length fns}"
proof (induction fns arbitrary: i fs stdin)
  case Nil
  then show ?case by simp
next
  case (Cons f rest)
  have split: "{key_of (i + n) ((f # rest) ! n) | n. n < length (f # rest)}
      = insert (key_of i f) {key_of (Suc i + n) (rest ! n) | n. n < length rest}"
  proof (rule set_eqI, rule iffI)
    fix k
    assume "k \<in> {key_of (i + n) ((f # rest) ! n) | n. n < length (f # rest)}"
    then obtain n where n: "n < length (f # rest)" "k = key_of (i + n) ((f # rest) ! n)" by blast
    show "k \<in> insert (key_of i f) {key_of (Suc i + n) (rest ! n) | n. n < length rest}"
    proof (cases n)
      case 0
      with n show ?thesis by simp
    next
      case (Suc m)
      with n have "m < length rest" "k = key_of (Suc i + m) (rest ! m)" by simp_all
      then show ?thesis by blast
    qed
  next
    fix k
    assume "k \<in> insert (key_of i f) {key_of (Suc i + n) (rest ! n) | n. n < length rest}"
    then consider "k = key_of i f" | m where "m < length rest" "k = key_of (Suc i + m) (rest ! m)"
      by blast
    then show "k \<in> {key_of (i + n) ((f # rest) ! n) | n. n < length (f # rest)}"
    proof cases
      case 1
      then have "0 < length (f # rest) \<and> k = key_of (i + 0) ((f # rest) ! 0)" by simp
      then show ?thesis by blast
    next
      case 2
      then have "Suc m < length (f # rest) \<and> k = key_of (i + Suc m) ((f # rest) ! Suc m)" by simp
      then show ?thesis by blast
    qed
  qed
  show ?case
  proof (cases "f = ''-''")
    case True
    with Cons.prems obtain content s1 where
      "processFiles_loop env (Suc i) rest (AList.update (synthetic_name i) content fs)
         \<lparr>state = Close env s1, calls = calls stdin @ [CallReadAll, CallClose]\<rparr> = (Inr fs', stdin')"
      by (auto split: prod.splits sum.splits)
    from Cons.IH [OF this] show ?thesis
      unfolding split using True by (simp add: key_of_def dom_update)
  next
    case False
    with Cons.prems obtain content where
      "processFiles_loop env (Suc i) rest (AList.update (Base f) content fs) stdin = (Inr fs', stdin')"
      by (auto split: prod.splits sum.splits)
    from Cons.IH [OF this] show ?thesis
      unfolding split using False by (simp add: key_of_def dom_update)
  qed
qed

lemma loop_lookup_other:
  "processFiles_loop env i fns fs stdin = (Inr fs', stdin')
     \<Longrightarrow> \<forall>n < length fns. key_of (i + n) (fns ! n) \<noteq> k
     \<Longrightarrow> map_of fs' k = map_of fs k"
proof (induction fns arbitrary: i fs stdin)
  case Nil
  then show ?case by simp
next
  case (Cons f rest)
  from Cons.prems(2) have k0: "key_of i f \<noteq> k" by fastforce
  have rest: "\<forall>n < length rest. key_of (Suc i + n) (rest ! n) \<noteq> k"
  proof (intro allI impI)
    fix n assume "n < length rest"
    then have "Suc n < length (f # rest)" by simp
    with Cons.prems(2) have "key_of (i + Suc n) ((f # rest) ! Suc n) \<noteq> k" by blast
    then show "key_of (Suc i + n) (rest ! n) \<noteq> k" by simp
  qed
  show ?case
  proof (cases "f = ''-''")
    case True
    with Cons.prems(1) obtain content s1 where
      "processFiles_loop env (Suc i) rest (AList.update (synthetic_name i) content fs)
         \<lparr>state = Close env s1, calls = calls stdin @ [CallReadAll, CallClose]\<rparr> = (Inr fs', stdin')"
      by (auto split: prod.splits sum.splits)
    from Cons.IH [OF this rest] k0 True show ?thesis
      by (simp add: key_of_def update_conv')
  next
    case False
    with Cons.prems(1) obtain content where
      "processFiles_loop env (Suc i) rest (AList.update (Base f) content fs) stdin = (Inr fs', stdin')"
      by (auto split: prod.splits sum.splits)
    from Cons.IH [OF this rest] k0 False show ?thesis
      by (simp add: key_of_def update_conv')
  qed
qed

lemma loop_value:
  assumes run: "processFiles_loop env i fns fs stdin = (Inr fs', stdin')"
    and n: "n < length fns"
    and last: "\<forall>m. n < m \<and> m < length fns \<longrightarrow> key_of (i + m) (fns ! m) \<noteq> key_of (i + n) (fns ! n)"
  shows "\<exists>fs_n stdin_n. processFiles_loop env i (take n fns) fs stdin = (Inr fs_n, stdin_n)
           \<and> (if fns ! n = ''-''
              then \<exists>content s1. ReadAll env (state stdin_n) = (Inr content, s1)
                     \<and> map_of fs' (synthetic_name (i + n)) = Some content
              else \<exists>content. ReadFile env (fns ! n) = Inr content
                     \<and> map_of fs' (Base (fns ! n)) = Some content)"
proof -
  let ?rest = "drop (Suc n) fns"
  have fns: "fns = take n fns @ (fns ! n # ?rest)"
    using n by (simp add: id_take_nth_drop)
  have len: "length (take n fns) = n" using n by simp
  from run have "processFiles_loop env i (take n fns @ (fns ! n # ?rest)) fs stdin = (Inr fs', stdin')"
    using fns by simp
  then obtain fs_n stdin_n where pre: "processFiles_loop env i (take n fns) fs stdin = (Inr fs_n, stdin_n)"
    and step: "processFiles_loop env (i + n) (fns ! n # ?rest) fs_n stdin_n = (Inr fs', stdin')"
    unfolding loop_append len by (auto split: prod.splits sum.splits)
  have later: "\<forall>m < length ?rest. key_of (Suc (i + n) + m) (?rest ! m) \<noteq> key_of (i + n) (fns ! n)"
  proof (intro allI impI)
    fix m assume m: "m < length ?rest"
    then have "n < Suc n + m \<and> Suc n + m < length fns" by simp
    with last have "key_of (i + (Suc n + m)) (fns ! (Suc n + m)) \<noteq> key_of (i + n) (fns ! n)" by blast
    moreover have "?rest ! m = fns ! (Suc n + m)" using m by simp
    ultimately show "key_of (Suc (i + n) + m) (?rest ! m) \<noteq> key_of (i + n) (fns ! n)"
      by (simp add: add.assoc)
  qed
  show ?thesis
  proof (cases "fns ! n = ''-''")
    case True
    with step obtain content s1 where rd: "ReadAll env (state stdin_n) = (Inr content, s1)"
      and tl: "processFiles_loop env (Suc (i + n)) ?rest
                 (AList.update (synthetic_name (i + n)) content fs_n)
                 \<lparr>state = Close env s1, calls = calls stdin_n @ [CallReadAll, CallClose]\<rparr> = (Inr fs', stdin')"
      by (auto split: prod.splits sum.splits)
    from loop_lookup_other [OF tl later] True
    have "map_of fs' (synthetic_name (i + n)) = Some content"
      by (simp add: key_of_def update_conv')
    with pre rd True show ?thesis by auto
  next
    case False
    with step obtain content where rd: "ReadFile env (fns ! n) = Inr content"
      and tl: "processFiles_loop env (Suc (i + n)) ?rest
                 (AList.update (Base (fns ! n)) content fs_n) stdin_n = (Inr fs', stdin')"
      by (auto split: prod.splits sum.splits)
    from loop_lookup_other [OF tl later] False
    have "map_of fs' (Base (fns ! n)) = Some content"
      by (simp add: key_of_def update_conv')
    with pre rd False show ?thesis by auto
  qed
qed

lemma loop_files_ok:
  "''-'' \<notin> set fns \<Longrightarrow> \<forall>f \<in> set fns. ReadFile env f = Inr (content f)
     \<Longrightarrow> \<exists>fs'. processFiles_loop env i fns fs stdin = (Inr fs', stdin)"
  by (induction fns arbitrary: i fs) auto

lemma keys_of_files:
  assumes "''-'' \<notin> set fns"
  shows "{key_of (i + n) (fns ! n) | n. n < length fns} = Base ` set fns"
proof -
  have "\<And>n. n < length fns \<Longrightarrow> key_of (i + n) (fns ! n) = Base (fns ! n)"
  proof -
    fix n assume "n < length fns"
    then have "fns ! n \<in> set fns" by (rule nth_mem)
    with assms have "fns ! n \<noteq> ''-''" by metis
    then show "key_of (i + n) (fns ! n) = Base (fns ! n)" by (simp add: key_of_def)
  qed
  then have "{key_of (i + n) (fns ! n) | n. n < length fns} = {Base (fns ! n) | n. n < length fns}"
    by metis
  also have "\<dots> = Base ` set fns"
    by (auto simp: set_conv_nth)
  finally show ?thesis .
qed

subsection \<open>Real files\<close>

text \<open>The equations that evaluate the functions on the concrete runs.\<close>

lemmas example_defs = example_env_def example_ReadFile_def example_files_def example_stdin_def
  example_opts_def example_gist_def failing_env_def http_failure_def closing_env_def
  open_stdin_def

lemmas run_defs = processFiles_def synthetic_name_def Itoa.simps digit_char_def Base_def
  createRun_def default_fileArgs_def processMessage_def completionMessage_def guessGistName_def
  re_MatchString_def is_digit_def publish_error_def

lemma loop_files_stdin:
  "''-'' \<notin> set fns \<Longrightarrow> processFiles_loop env i fns fs stdin = (r, stdin') \<Longrightarrow> stdin' = stdin"
  by (induction fns arbitrary: i fs) (auto split: sum.splits)

lemma processFiles_distinct:
  "processFiles env stdin filenames = (Inr fs, stdin') \<Longrightarrow> distinct (map fst fs)"
  unfolding processFiles_def
  by (auto split: if_splits dest: loop_distinct)

text \<open>
  Claim C3. On a non-empty list of real-file tokens (none is \<open>-\<close>) whose reads all
  succeed, \<open>processFiles\<close> returns a FileSet and no error, and leaves the standard input
  alone. The keys of the FileSet are distinct and are exactly the basenames of the paths.
  The value of a key is the content of the last path of the list that has this basename:
  a later path with the same basename overwrites the earlier one, and no error is raised.
\<close>

theorem processFiles_real_files:
  assumes "filenames \<noteq> []"
    and "''-'' \<notin> set filenames"
    and "\<forall>f \<in> set filenames. ReadFile env f = Inr (content f)"
  shows "\<exists>fs. processFiles env stdin filenames = (Inr fs, stdin)
           \<and> distinct (map fst fs)
           \<and> fst ` set fs = Base ` set filenames
           \<and> (\<forall>n < length filenames.
                 (\<forall>m. n < m \<and> m < length filenames \<longrightarrow> Base (filenames ! m) \<noteq> Base (filenames ! n))
                 \<longrightarrow> map_of fs (Base (filenames ! n)) = Some (content (filenames ! n)))"
proof -
  from loop_files_ok [OF assms(2,3)] obtain fs where
    loop: "processFiles_loop env 0 filenames [] stdin = (Inr fs, stdin)"
    by blast
  with assms(1) have run: "processFiles env stdin filenames = (Inr fs, stdin)"
    by (simp add: processFiles_def)
  have dist: "distinct (map fst fs)"
    using run by (rule processFiles_distinct)
  have keys: "fst ` set fs = Base ` set filenames"
    using loop_keys [OF loop] keys_of_files [OF assms(2), of 0] by simp
  have vals: "map_of fs (Base (filenames ! n)) = Some (content (filenames ! n))"
    if n: "n < length filenames"
      and last: "\<forall>m. n < m \<and> m < length filenames \<longrightarrow> Base (filenames ! m) \<noteq> Base (filenames ! n)"
    for n
  proof -
    have real: "filenames ! m \<noteq> ''-''" if "m < length filenames" for m
      using that assms(2) nth_mem by metis
    have "\<forall>m. n < m \<and> m < length filenames
            \<longrightarrow> key_of (0 + m) (filenames ! m) \<noteq> key_of (0 + n) (filenames ! n)"
      using last real n by (simp add: key_of_def)
    from loop_value [OF loop n this] real [OF n]
    obtain c where "ReadFile env (filenames ! n) = Inr c"
      and "map_of fs (Base (filenames ! n)) = Some c"
      by auto
    moreover have "ReadFile env (filenames ! n) = Inr (content (filenames ! n))"
      using assms(3) n nth_mem by metis
    ultimately show ?thesis by simp
  qed
  show ?thesis
    using run dist keys vals by blast
qed

theorem processFiles_real_files_witness:
  "[''src/a/main.go'', ''hello.py'', ''src/b/main.go''] \<noteq> []
   \<and> ''-'' \<notin> set [''src/a/main.go'', ''hello.py'', ''src/b/main.go'']
   \<and> ReadFile example_env ''src/a/main.go'' = Inr ''package a''
   \<and> ReadFile example_env ''hello.py'' = Inr ''print(1)''
   \<and> ReadFile example_env ''src/b/main.go'' = Inr ''package b''
   \<and> processFiles example_env example_stdin [''src/a/main.go'', ''hello.py'', ''src/b/main.go'']
       = (Inr [(''main.go'', ''package b''), (''hello.py'', ''print(1)'')], example_stdin)
   \<and> Base ` set [''src/a/main.go'', ''hello.py'', ''src/b/main.go''] = {''main.go'', ''hello.py''}
   \<and> map_of [(''main.go'', ''package b''), (''hello.py'', ''print(1)'')] (Base ''src/b/main.go'')
       = Some ''package b''"
  using processFiles_real_files
          [of "[''src/a/main.go'', ''hello.py'', ''src/b/main.go'']" example_env
              "\<lambda>f. projr (example_ReadFile f)" example_stdin]
  by (simp add: example_defs run_defs)

subsection \<open>Standard input\<close>

text \<open>
  Claim C4, as amended. On a run of \<open>processFiles\<close> that succeeds, a \<open>-\<close> token at
  zero-based position \<open>i\<close> yields an entry with the key \<open>gistfile{i}.txt\<close>. Its value is
  the content that the read of the standard input made at that token returned (the read
  is made on the stream as the tokens before \<open>i\<close> left it, which is the stream as given
  when no earlier token is \<open>-\<close>), provided that no later token has the basename
  \<open>gistfile{i}.txt\<close>. An empty list of filenames is replaced by the list of the single
  token \<open>-\<close>, and when the read of the standard input succeeds the FileSet then has
  exactly one entry, \<open>gistfile0.txt\<close>, with the content read.
\<close>

theorem processFiles_stdin_entry:
  "(processFiles env stdin filenames = (Inr fs, stdin') \<and> i < length filenames \<and> filenames ! i = ''-''
      \<longrightarrow> synthetic_name i \<in> fst ` set fs
        \<and> (synthetic_name i \<notin> Base ` set (drop (Suc i) filenames)
             \<longrightarrow> (\<exists>fs_i stdin_i content s1.
                    processFiles_loop env 0 (take i filenames) [] stdin = (Inr fs_i, stdin_i)
                  \<and> (''-'' \<notin> set (take i filenames) \<longrightarrow> stdin_i = stdin)
                  \<and> ReadAll env (state stdin_i) = (Inr content, s1)
                  \<and> map_of fs (synthetic_name i) = Some content)))
   \<and> default_fileArgs [] = [''-'']
   \<and> (ReadAll env (state stdin) = (Inr content0, s0)
      \<longrightarrow> fst (processFiles env stdin (default_fileArgs [])) = Inr [(''gistfile0.txt'', content0)])"
proof (intro conjI impI)
  assume a: "processFiles env stdin filenames = (Inr fs, stdin') \<and> i < length filenames \<and> filenames ! i = ''-''"
  then have i: "i < length filenames" and dash: "filenames ! i = ''-''" by simp_all
  from a have loop: "processFiles_loop env 0 filenames [] stdin = (Inr fs, stdin')"
    by (auto simp: processFiles_def split: if_splits)
  have "key_of (0 + i) (filenames ! i) \<in> {key_of (0 + n) (filenames ! n) | n. n < length filenames}"
    using i by blast
  then show "synthetic_name i \<in> fst ` set fs"
    using loop_keys [OF loop] dash by (simp add: key_of_def)
  assume free: "synthetic_name i \<notin> Base ` set (drop (Suc i) filenames)"
  have later: "\<forall>m. i < m \<and> m < length filenames
                 \<longrightarrow> key_of (0 + m) (filenames ! m) \<noteq> key_of (0 + i) (filenames ! i)"
  proof (intro allI impI)
    fix m assume m: "i < m \<and> m < length filenames"
    show "key_of (0 + m) (filenames ! m) \<noteq> key_of (0 + i) (filenames ! i)"
    proof (cases "filenames ! m = ''-''")
      case True
      have "synthetic_name m \<noteq> synthetic_name i"
        using m synthetic_name_inj [of m i] by auto
      with True dash show ?thesis by (simp add: key_of_def)
    next
      case False
      have "filenames ! m = drop (Suc i) filenames ! (m - Suc i)"
        using m by simp
      moreover have "m - Suc i < length (drop (Suc i) filenames)"
        using m by (simp add: less_diff_conv2 Suc_le_eq) arith
      ultimately have "filenames ! m \<in> set (drop (Suc i) filenames)"
        by (metis nth_mem)
      with free have "Base (filenames ! m) \<noteq> synthetic_name i" by (metis imageI)
      with False dash show ?thesis by (simp add: key_of_def)
    qed
  qed
  from loop_value [OF loop i later] dash
  obtain fs_i stdin_i content s1 where
    pre: "processFiles_loop env 0 (take i filenames) [] stdin = (Inr fs_i, stdin_i)"
    and rd: "ReadAll env (state stdin_i) = (Inr content, s1)"
    and v: "map_of fs (synthetic_name i) = Some content"
    by auto
  have "''-'' \<notin> set (take i filenames) \<longrightarrow> stdin_i = stdin"
    using loop_files_stdin [OF _ pre] by blast
  with pre rd v show "\<exists>fs_i stdin_i content s1.
      processFiles_loop env 0 (take i filenames) [] stdin = (Inr fs_i, stdin_i)
    \<and> (''-'' \<notin> set (take i filenames) \<longrightarrow> stdin_i = stdin)
    \<and> ReadAll env (state stdin_i) = (Inr content, s1)
    \<and> map_of fs (synthetic_name i) = Some content"
    by blast
next
  show "default_fileArgs [] = [''-'']"
    by (simp add: default_fileArgs_def)
next
  assume "ReadAll env (state stdin) = (Inr content0, s0)"
  then show "fst (processFiles env stdin (default_fileArgs [])) = Inr [(''gistfile0.txt'', content0)]"
    by (simp add: default_fileArgs_def processFiles_def synthetic_name_def Itoa.simps digit_char_def)
qed

theorem processFiles_stdin_entry_witness:
  "processFiles example_env example_stdin [''hello.py'', ''-'']
     = (Inr [(''hello.py'', ''print(1)''), (''gistfile1.txt'', ''from stdin'')],
        \<lparr>state = [], calls = [CallReadAll, CallClose]\<rparr>)
   \<and> (1::nat) < length [''hello.py'', ''-'']
   \<and> [''hello.py'', ''-''] ! 1 = ''-''
   \<and> synthetic_name 1 = ''gistfile1.txt''
   \<and> synthetic_name 1 \<notin> Base ` set (drop (Suc 1) [''hello.py'', ''-''])
   \<and> ''-'' \<notin> set (take 1 [''hello.py'', ''-''])
   \<and> ReadAll example_env (state example_stdin) = (Inr ''from stdin'', [])
   \<and> map_of [(''hello.py'', ''print(1)''), (''gistfile1.txt'', ''from stdin'')] (synthetic_name 1)
       = Some ''from stdin''
   \<and> fst (processFiles example_env example_stdin (default_fileArgs []))
       = Inr [(''gistfile0.txt'', ''from stdin'')]"
  using processFiles_stdin_entry
          [of example_env example_stdin "[''hello.py'', ''-'']"
              "[(''hello.py'', ''print(1)''), (''gistfile1.txt'', ''from stdin'')]"
              "\<lparr>state = [], calls = [CallReadAll, CallClose]\<rparr>" 1 "''from stdin''" "[]"]
  by (simp add: example_defs run_defs)

text \<open>
  The claim as first stated fails on the list \<open>-\<close>, \<open>gistfile0.txt\<close>: the file read
  second is stored under the key of the standard input read first, and the entry
  \<open>gistfile0.txt\<close> holds the content of the file.
\<close>

theorem processFiles_stdin_entry_counterexample:
  "processFiles example_env example_stdin [''-'', ''gistfile0.txt'']
     = (Inr [(''gistfile0.txt'', ''zero'')], \<lparr>state = [], calls = [CallReadAll, CallClose]\<rparr>)
   \<and> [''-'', ''gistfile0.txt''] ! 0 = ''-''
   \<and> synthetic_name 0 = ''gistfile0.txt''
   \<and> ReadAll example_env (state example_stdin) = (Inr ''from stdin'', [])
   \<and> map_of [(''gistfile0.txt'', ''zero'')] (synthetic_name 0) = Some ''zero''
   \<and> map_of [(''gistfile0.txt'', ''zero'')] (synthetic_name 0) \<noteq> Some ''from stdin''"
  by (simp add: example_defs run_defs)

subsection \<open>Errors\<close>

lemma loop_error_iff:
  "processFiles_loop env i fns fs stdin = (Inl e, stdin') \<longleftrightarrow>
     (\<exists>n fs_n stdin_n err. n < length fns
        \<and> processFiles_loop env i (take n fns) fs stdin = (Inr fs_n, stdin_n)
        \<and> (if fns ! n = ''-''
           then \<exists>s1. ReadAll env (state stdin_n) = (Inl err, s1)
                  \<and> e = WrapError (''failed to read from stdin: '' @ Error err) err
                  \<and> stdin' = \<lparr>state = s1, calls = calls stdin_n @ [CallReadAll]\<rparr>
           else ReadFile env (fns ! n) = Inl err
                  \<and> e = WrapError (''failed to read file '' @ fns ! n @ '': '' @ Error err) err
                  \<and> stdin' = stdin_n))"
  (is "?L = ?R")
proof
  assume L: ?L
  then show ?R
  proof (induction fns arbitrary: i fs stdin)
    case Nil
    then show ?case by simp
  next
    case (Cons f rest)
    show ?case
    proof (cases "f = ''-''")
      case True
      show ?thesis
      proof (cases "ReadAll env (state stdin)")
        case (Pair r s1)
        show ?thesis
        proof (cases r)
          case (Inl err)
          with Cons.prems True Pair
          have "e = WrapError (''failed to read from stdin: '' @ Error err) err"
            and "stdin' = \<lparr>state = s1, calls = calls stdin @ [CallReadAll]\<rparr>"
            by simp_all
          with True Pair Inl
          have "0 < length (f # rest)
              \<and> processFiles_loop env i (take 0 (f # rest)) fs stdin = (Inr fs, stdin)
              \<and> (if (f # rest) ! 0 = ''-''
                 then \<exists>s1. ReadAll env (state stdin) = (Inl err, s1)
                        \<and> e = WrapError (''failed to read from stdin: '' @ Error err) err
                        \<and> stdin' = \<lparr>state = s1, calls = calls stdin @ [CallReadAll]\<rparr>
                 else ReadFile env ((f # rest) ! 0) = Inl err
                        \<and> e = WrapError (''failed to read file '' @ (f # rest) ! 0 @ '': '' @ Error err) err
                        \<and> stdin' = stdin)"
            by simp
          then show ?thesis by blast
        next
          case (Inr content)
          with Cons.prems True Pair
          have "processFiles_loop env (Suc i) rest (AList.update (synthetic_name i) content fs)
                  \<lparr>state = Close env s1, calls = calls stdin @ [CallReadAll, CallClose]\<rparr> = (Inl e, stdin')"
            by simp
          from Cons.IH [OF this] obtain n fs_n stdin_n err where
            n: "n < length rest"
            and pre: "processFiles_loop env (Suc i) (take n rest) (AList.update (synthetic_name i) content fs)
                  \<lparr>state = Close env s1, calls = calls stdin @ [CallReadAll, CallClose]\<rparr> = (Inr fs_n, stdin_n)"
            and fail: "if rest ! n = ''-''
                 then \<exists>s1. ReadAll env (state stdin_n) = (Inl err, s1)
                        \<and> e = WrapError (''failed to read from stdin: '' @ Error err) err
                        \<and> stdin' = \<lparr>state = s1, calls = calls stdin_n @ [CallReadAll]\<rparr>
                 else ReadFile env (rest ! n) = Inl err
                        \<and> e = WrapError (''failed to read file '' @ rest ! n @ '': '' @ Error err) err
                        \<and> stdin' = stdin_n"
            by blast
          from n pre fail True Pair Inr
          have "Suc n < length (f # rest)
              \<and> processFiles_loop env i (take (Suc n) (f # rest)) fs stdin = (Inr fs_n, stdin_n)
              \<and> (if (f # rest) ! Suc n = ''-''
                 then \<exists>s1. ReadAll env (state stdin_n) = (Inl err, s1)
                        \<and> e = WrapError (''failed to read from stdin: '' @ Error err) err
                        \<and> stdin' = \<lparr>state = s1, calls = calls stdin_n @ [CallReadAll]\<rparr>
                 else ReadFile env ((f # rest) ! Suc n) = Inl err
                        \<and> e = WrapError (''failed to read file '' @ (f # rest) ! Suc n @ '': '' @ Error err) err
                        \<and> stdin' = stdin_n)"
            by (simp split: if_splits)
          then show ?thesis by blast
        qed
      qed
    next
      case False
      show ?thesis
      proof (cases "ReadFile env f")
        case (Inl err)
        with Cons.prems False
        have "e = WrapError (''failed to read file '' @ f @ '': '' @ Error err) err" and "stdin' = stdin"
          by simp_all
        with False Inl
        have "0 < length (f # rest)
            \<and> processFiles_loop env i (take 0 (f # rest)) fs stdin = (Inr fs, stdin)
            \<and> (if (f # rest) ! 0 = ''-''
               then \<exists>s1. ReadAll env (state stdin) = (Inl err, s1)
                      \<and> e = WrapError (''failed to read from stdin: '' @ Error err) err
                      \<and> stdin' = \<lparr>state = s1, calls = calls stdin @ [CallReadAll]\<rparr>
               else ReadFile env ((f # rest) ! 0) = Inl err
                      \<and> e = WrapError (''failed to read file '' @ (f # rest) ! 0 @ '': '' @ Error err) err
                      \<and> stdin' = stdin)"
          by simp
        then show ?thesis by blast
      next
        case (Inr content)
        with Cons.prems False
        have "processFiles_loop env (Suc i) rest (AList.update (Base f) content fs) stdin = (Inl e, stdin')"
          by simp
        from Cons.IH [OF this] obtain n fs_n stdin_n err where
          n: "n < length rest"
          and pre: "processFiles_loop env (Suc i) (take n rest) (AList.update (Base f) content fs) stdin
                      = (Inr fs_n, stdin_n)"
          and fail: "if rest ! n = ''-''
               then \<exists>s1. ReadAll env (state stdin_n) = (Inl err, s1)
                      \<and> e = WrapError (''failed to read from stdin: '' @ Error err) err
                      \<and> stdin' = \<lparr>state = s1, calls = calls stdin_n @ [CallReadAll]\<rparr>
               else ReadFile env (rest ! n) = Inl err
                      \<and> e = WrapError (''failed to read file '' @ rest ! n @ '': '' @ Error err) err
                      \<and> stdin' = stdin_n"
          by blast
        from n pre fail False Inr
        have "Suc n < length (f # rest)
            \<and> processFiles_loop env i (take (Suc n) (f # rest)) fs stdin = (Inr fs_n, stdin_n)
            \<and> (if (f # rest) ! Suc n = ''-''
               then \<exists>s1. ReadAll env (state stdin_n) = (Inl err, s1)
                      \<and> e = WrapError (''failed to read from stdin: '' @ Error err) err
                      \<and> stdin' = \<lparr>state = s1, calls = calls stdin_n @ [CallReadAll]\<rparr>
               else ReadFile env ((f # rest) ! Suc n) = Inl err
                      \<and> e = WrapError (''failed to read file '' @ (f # rest) ! Suc n @ '': '' @ Error err) err
                      \<and> stdin' = stdin_n)"
          by (simp split: if_splits)
        then show ?thesis by blast
      qed
    qed
  qed
next
  assume ?R
  then obtain n fs_n stdin_n err where n: "n < length fns"
    and pre: "processFiles_loop env i (take n fns) fs stdin = (Inr fs_n, stdin_n)"
    and fail: "if fns ! n = ''-''
           then \<exists>s1. ReadAll env (state stdin_n) = (Inl err, s1)
                  \<and> e = WrapError (''failed to read from stdin: '' @ Error err) err
                  \<and> stdin' = \<lparr>state = s1, calls = calls stdin_n @ [CallReadAll]\<rparr>
           else ReadFile env (fns ! n) = Inl err
                  \<and> e = WrapError (''failed to read file '' @ fns ! n @ '': '' @ Error err) err
                  \<and> stdin' = stdin_n"
    by blast
  have fns: "fns = take n fns @ (fns ! n # drop (Suc n) fns)"
    using n by (simp add: id_take_nth_drop)
  have len: "length (take n fns) = n" using n by simp
  have "processFiles_loop env i (take n fns @ (fns ! n # drop (Suc n) fns)) fs stdin = (Inl e, stdin')"
    unfolding loop_append len pre using fail by (auto split: if_splits)
  with fns show ?L by simp
qed

lemma loop_ok_reads:
  "processFiles_loop env i fns fs stdin = (Inr fs', stdin') \<Longrightarrow> f \<in> set fns \<Longrightarrow> f \<noteq> ''-''
     \<Longrightarrow> \<exists>content. ReadFile env f = Inr content"
  by (induction fns arbitrary: i fs stdin) (auto split: prod.splits sum.splits if_splits)

text \<open>
  Claim C5. \<open>processFiles\<close> returns an error exactly when the list is empty (the error
  \<open>no files passed\<close>) or some read fails, after the reads of the tokens before it
  succeeded. A failed read of a file gives an error that wraps the error of the read, with
  a message that names the path; a failed read of the standard input gives an error that
  wraps the error of that read. On a list of real files the error arises exactly when the
  list is empty or the read of one of its files fails; otherwise no error is returned.
\<close>

theorem processFiles_error_cases:
  "(processFiles env stdin filenames = (Inl e, stdin') \<longleftrightarrow>
      (filenames = [] \<and> e = ErrorString ''no files passed'' \<and> stdin' = stdin)
    \<or> (\<exists>i fs_i stdin_i err. i < length filenames
          \<and> processFiles_loop env 0 (take i filenames) [] stdin = (Inr fs_i, stdin_i)
          \<and> (if filenames ! i = ''-''
             then \<exists>s1. ReadAll env (state stdin_i) = (Inl err, s1)
                    \<and> e = WrapError (''failed to read from stdin: '' @ Error err) err
                    \<and> stdin' = \<lparr>state = s1, calls = calls stdin_i @ [CallReadAll]\<rparr>
             else ReadFile env (filenames ! i) = Inl err
                    \<and> e = WrapError (''failed to read file '' @ filenames ! i @ '': '' @ Error err) err
                    \<and> stdin' = stdin_i)))
   \<and> (''-'' \<notin> set filenames \<longrightarrow>
        (isl (fst (processFiles env stdin filenames)) \<longleftrightarrow>
           filenames = [] \<or> (\<exists>f \<in> set filenames. isl (ReadFile env f))))"
proof (intro conjI impI)
  show "processFiles env stdin filenames = (Inl e, stdin') \<longleftrightarrow>
      (filenames = [] \<and> e = ErrorString ''no files passed'' \<and> stdin' = stdin)
    \<or> (\<exists>i fs_i stdin_i err. i < length filenames
          \<and> processFiles_loop env 0 (take i filenames) [] stdin = (Inr fs_i, stdin_i)
          \<and> (if filenames ! i = ''-''
             then \<exists>s1. ReadAll env (state stdin_i) = (Inl err, s1)
                    \<and> e = WrapError (''failed to read from stdin: '' @ Error err) err
                    \<and> stdin' = \<lparr>state = s1, calls = calls stdin_i @ [CallReadAll]\<rparr>
             else ReadFile env (filenames ! i) = Inl err
                    \<and> e = WrapError (''failed to read file '' @ filenames ! i @ '': '' @ Error err) err
                    \<and> stdin' = stdin_i))"
  proof (cases "filenames = []")
    case True
    then show ?thesis by (auto simp: processFiles_def)
  next
    case False
    then have "processFiles env stdin filenames = processFiles_loop env 0 filenames [] stdin"
      by (simp add: processFiles_def)
    with False show ?thesis
      by (simp only: loop_error_iff [of env 0 filenames "[]" stdin e stdin'] False simp_thms)
  qed
next
  assume real: "''-'' \<notin> set filenames"
  show "isl (fst (processFiles env stdin filenames)) \<longleftrightarrow>
           filenames = [] \<or> (\<exists>f \<in> set filenames. isl (ReadFile env f))"
  proof (cases "filenames = []")
    case True
    then show ?thesis by (simp add: processFiles_def)
  next
    case False
    then have run: "processFiles env stdin filenames = processFiles_loop env 0 filenames [] stdin"
      by (simp add: processFiles_def)
    obtain r st where res: "processFiles_loop env 0 filenames [] stdin = (r, st)"
      by (cases "processFiles_loop env 0 filenames [] stdin")
    show ?thesis
    proof
      assume "isl (fst (processFiles env stdin filenames))"
      with run res obtain e where "processFiles_loop env 0 filenames [] stdin = (Inl e, st)"
        by (cases r) auto
      then obtain n err where n: "n < length filenames"
        and fail: "if filenames ! n = ''-'' then True else ReadFile env (filenames ! n) = Inl err"
        unfolding loop_error_iff by (auto split: if_splits)
      from n have mem: "filenames ! n \<in> set filenames" by (rule nth_mem)
      with real have "filenames ! n \<noteq> ''-''" by metis
      with fail have "isl (ReadFile env (filenames ! n))" by simp
      with mem show "filenames = [] \<or> (\<exists>f \<in> set filenames. isl (ReadFile env f))" by blast
    next
      assume "filenames = [] \<or> (\<exists>f \<in> set filenames. isl (ReadFile env f))"
      with False obtain f where f: "f \<in> set filenames" "isl (ReadFile env f)" by blast
      with real have nd: "f \<noteq> ''-''" by metis
      show "isl (fst (processFiles env stdin filenames))"
      proof (cases r)
        case (Inl e)
        with run res show ?thesis by simp
      next
        case (Inr fs')
        with res have "processFiles_loop env 0 filenames [] stdin = (Inr fs', st)" by simp
        from loop_ok_reads [OF this f(1) nd] f(2) show ?thesis by auto
      qed
    qed
  qed
qed

theorem processFiles_error_cases_witness:
  "''-'' \<notin> set [''hello.py'', ''missing.txt'']
   \<and> processFiles_loop example_env 0 (take 1 [''hello.py'', ''missing.txt'']) [] example_stdin
       = (Inr [(''hello.py'', ''print(1)'')], example_stdin)
   \<and> ReadFile example_env ''missing.txt''
       = Inl (ErrorString ''open missing.txt: no such file or directory'')
   \<and> processFiles example_env example_stdin [''hello.py'', ''missing.txt'']
       = (Inl (WrapError ''failed to read file missing.txt: open missing.txt: no such file or directory''
                 (ErrorString ''open missing.txt: no such file or directory'')),
          example_stdin)
   \<and> isl (fst (processFiles example_env example_stdin [''hello.py'', ''missing.txt'']))
   \<and> processFiles example_env example_stdin [] = (Inl (ErrorString ''no files passed''), example_stdin)
   \<and> \<not> isl (fst (processFiles example_env example_stdin [''hello.py'', ''src/a/main.go'']))"
  using processFiles_error_cases
          [of example_env example_stdin "[''hello.py'', ''missing.txt'']"
              "WrapError ''failed to read file missing.txt: open missing.txt: no such file or directory''
                 (ErrorString ''open missing.txt: no such file or directory'')"
              example_stdin]
        processFiles_error_cases [of example_env example_stdin "[]" "ErrorString ''no files passed''" example_stdin]
        processFiles_error_cases [of example_env example_stdin "[''hello.py'', ''src/a/main.go'']"]
  by (simp add: example_defs run_defs)

subsection \<open>Calls on the standard input\<close>

lemma loop_calls:
  "processFiles_loop env i fns fs stdin = (r, stdin')
     \<Longrightarrow> \<exists>new. calls stdin' = calls stdin @ new
           \<and> count_list new CallReadAll \<le> count_list fns ''-''
           \<and> count_list new CallClose \<le> count_list new CallReadAll
           \<and> (isl r \<or> count_list new CallReadAll = count_list fns ''-''
                       \<and> count_list new CallClose = count_list fns ''-'')"
proof (induction fns arbitrary: i fs stdin)
  case Nil
  then show ?case by auto
next
  case (Cons f rest)
  show ?case
  proof (cases "f = ''-''")
    case True
    show ?thesis
    proof (cases "ReadAll env (state stdin)")
      case (Pair res s1)
      show ?thesis
      proof (cases res)
        case (Inl err)
        with Cons.prems True Pair
        have "calls stdin' = calls stdin @ [CallReadAll]" and "isl r" by auto
        then have "calls stdin' = calls stdin @ [CallReadAll]
           \<and> count_list [CallReadAll] CallReadAll \<le> count_list (f # rest) ''-''
           \<and> count_list [CallReadAll] CallClose \<le> count_list [CallReadAll] CallReadAll
           \<and> (isl r \<or> count_list [CallReadAll] CallReadAll = count_list (f # rest) ''-''
                       \<and> count_list [CallReadAll] CallClose = count_list (f # rest) ''-'')"
          using True by simp
        then show ?thesis by blast
      next
        case (Inr content)
        with Cons.prems True Pair
        have "processFiles_loop env (Suc i) rest (AList.update (synthetic_name i) content fs)
                \<lparr>state = Close env s1, calls = calls stdin @ [CallReadAll, CallClose]\<rparr> = (r, stdin')"
          by simp
        from Cons.IH [OF this] obtain new where
          new: "calls stdin' = (calls stdin @ [CallReadAll, CallClose]) @ new"
            "count_list new CallReadAll \<le> count_list rest ''-''"
            "count_list new CallClose \<le> count_list new CallReadAll"
            "isl r \<or> count_list new CallReadAll = count_list rest ''-''
                       \<and> count_list new CallClose = count_list rest ''-''"
          by auto
        let ?new = "[CallReadAll, CallClose] @ new"
        from new True have "calls stdin' = calls stdin @ ?new
           \<and> count_list ?new CallReadAll \<le> count_list (f # rest) ''-''
           \<and> count_list ?new CallClose \<le> count_list ?new CallReadAll
           \<and> (isl r \<or> count_list ?new CallReadAll = count_list (f # rest) ''-''
                       \<and> count_list ?new CallClose = count_list (f # rest) ''-'')"
          by auto
        then show ?thesis by blast
      qed
    qed
  next
    case False
    show ?thesis
    proof (cases "ReadFile env f")
      case (Inl err)
      with Cons.prems False have "stdin' = stdin" and "isl r" by auto
      then have "calls stdin' = calls stdin @ []
           \<and> count_list [] CallReadAll \<le> count_list (f # rest) ''-''
           \<and> count_list [] CallClose \<le> count_list [] CallReadAll
           \<and> (isl r \<or> count_list [] CallReadAll = count_list (f # rest) ''-''
                       \<and> count_list [] CallClose = count_list (f # rest) ''-'')"
        by simp
      then show ?thesis by blast
    next
      case (Inr content)
      with Cons.prems False
      have "processFiles_loop env (Suc i) rest (AList.update (Base f) content fs) stdin = (r, stdin')"
        by simp
      from Cons.IH [OF this] False show ?thesis by simp
    qed
  qed
qed

text \<open>
  Claim C8, as amended. \<open>processFiles\<close> calls \<open>ReadAll\<close> on the standard input at most
  once for each \<open>-\<close> token of the list and \<open>Close\<close> at most once for each such read; on a
  run that succeeds it makes exactly one read and one close for each \<open>-\<close> token. So on a
  list with at most one \<open>-\<close> token the standard input is read and closed at most once.
\<close>

theorem processFiles_stdin_calls:
  "processFiles env stdin filenames = (r, stdin') \<longrightarrow>
     (\<exists>new. calls stdin' = calls stdin @ new
        \<and> count_list new CallReadAll \<le> count_list filenames ''-''
        \<and> count_list new CallClose \<le> count_list new CallReadAll
        \<and> (isl r \<or> count_list new CallReadAll = count_list filenames ''-''
                    \<and> count_list new CallClose = count_list filenames ''-'')
        \<and> (count_list filenames ''-'' \<le> 1
             \<longrightarrow> count_list new CallReadAll \<le> 1 \<and> count_list new CallClose \<le> 1))"
proof
  assume run: "processFiles env stdin filenames = (r, stdin')"
  have "\<exists>new. calls stdin' = calls stdin @ new
           \<and> count_list new CallReadAll \<le> count_list filenames ''-''
           \<and> count_list new CallClose \<le> count_list new CallReadAll
           \<and> (isl r \<or> count_list new CallReadAll = count_list filenames ''-''
                       \<and> count_list new CallClose = count_list filenames ''-'')"
  proof (cases "filenames = []")
    case True
    with run have "calls stdin' = calls stdin @ []" "isl r"
      by (auto simp: processFiles_def)
    then show ?thesis by (metis count_list.simps(1) le0)
  next
    case False
    with run have "processFiles_loop env 0 filenames [] stdin = (r, stdin')"
      by (simp add: processFiles_def)
    then show ?thesis by (rule loop_calls)
  qed
  then obtain new where new: "calls stdin' = calls stdin @ new"
    "count_list new CallReadAll \<le> count_list filenames ''-''"
    "count_list new CallClose \<le> count_list new CallReadAll"
    "isl r \<or> count_list new CallReadAll = count_list filenames ''-''
                       \<and> count_list new CallClose = count_list filenames ''-''"
    by blast
  then have "count_list filenames ''-'' \<le> 1
             \<longrightarrow> count_list new CallReadAll \<le> 1 \<and> count_list new CallClose \<le> 1"
    by linarith
  with new show "\<exists>new. calls stdin' = calls stdin @ new
        \<and> count_list new CallReadAll \<le> count_list filenames ''-''
        \<and> count_list new CallClose \<le> count_list new CallReadAll
        \<and> (isl r \<or> count_list new CallReadAll = count_list filenames ''-''
                    \<and> count_list new CallClose = count_list filenames ''-'')
        \<and> (count_list filenames ''-'' \<le> 1
             \<longrightarrow> count_list new CallReadAll \<le> 1 \<and> count_list new CallClose \<le> 1)"
    by blast
qed

theorem processFiles_stdin_calls_witness:
  "processFiles example_env example_stdin [''hello.py'', ''-'']
     = (Inr [(''hello.py'', ''print(1)''), (''gistfile1.txt'', ''from stdin'')],
        \<lparr>state = [], calls = [CallReadAll, CallClose]\<rparr>)
   \<and> count_list [''hello.py'', ''-''] ''-'' = 1
   \<and> calls \<lparr>state = ([]::string), calls = [CallReadAll, CallClose]\<rparr>
       = calls example_stdin @ [CallReadAll, CallClose]
   \<and> count_list [CallReadAll, CallClose] CallReadAll = 1
   \<and> count_list [CallReadAll, CallClose] CallClose = 1"
  using processFiles_stdin_calls
          [of example_env example_stdin "[''hello.py'', ''-'']"
              "Inr [(''hello.py'', ''print(1)''), (''gistfile1.txt'', ''from stdin'')]"
              "\<lparr>state = [], calls = [CallReadAll, CallClose]\<rparr>"]
  by (simp add: example_defs run_defs)

text \<open>
  The claim as first stated fails on the list \<open>-\<close>, \<open>-\<close>: on a buffer the standard
  input is read twice and closed twice; on a stream whose reads fail once it is closed
  it is still read twice, and the second read is the error that \<open>processFiles\<close> returns.
\<close>

theorem processFiles_stdin_calls_counterexample:
  "processFiles example_env example_stdin [''-'', ''-'']
     = (Inr [(''gistfile0.txt'', ''from stdin''), (''gistfile1.txt'', '''')],
        \<lparr>state = [], calls = [CallReadAll, CallClose, CallReadAll, CallClose]\<rparr>)
   \<and> calls example_stdin = []
   \<and> count_list (calls (snd (processFiles example_env example_stdin [''-'', ''-'']))) CallReadAll = 2
   \<and> count_list (calls (snd (processFiles example_env example_stdin [''-'', ''-'']))) CallClose = 2
   \<and> \<not> count_list (calls (snd (processFiles example_env example_stdin [''-'', ''-'']))) CallReadAll \<le> 1
   \<and> \<not> count_list (calls (snd (processFiles example_env example_stdin [''-'', ''-'']))) CallClose \<le> 1
   \<and> processFiles closing_env open_stdin [''-'', ''-'']
     = (Inl (WrapError ''failed to read from stdin: read /dev/stdin: file already closed''
               (ErrorString ''read /dev/stdin: file already closed'')),
        \<lparr>state = ([], True), calls = [CallReadAll, CallClose, CallReadAll]\<rparr>)
   \<and> calls open_stdin = []
   \<and> \<not> count_list (calls (snd (processFiles closing_env open_stdin [''-'', ''-'']))) CallReadAll \<le> 1"
  by (simp add: example_defs run_defs)

subsection \<open>Files that look synthetic\<close>

lemma guessGistName_not_matching:
  "re_MatchString k \<Longrightarrow> guessGistName files \<noteq> k"
proof (cases "real_names files = {}")
  case True
  assume "re_MatchString k"
  then have "k \<noteq> ''''" by (auto simp: re_MatchString_iff)
  with True show ?thesis by (simp add: guessGistName_empty)
next
  case False
  assume k: "re_MatchString k"
  from guessGistName_least [OF False] have "\<not> re_MatchString (guessGistName files)"
    by (simp add: real_names_def)
  with k show ?thesis by metis
qed

text \<open>
  Claim C10. A real file whose basename matches the synthetic pattern is left out of the
  guess like an entry read from the standard input: \<open>guessGistName\<close> never returns a key
  that matches the pattern, and on a non-empty list of real files whose basenames all match
  it (the reads succeeding, the standard input untouched) the guessed name is empty, the
  progress message is the generic one and the completion message names no gist.
\<close>

theorem processFiles_synthetic_looking_files:
  "(filenames \<noteq> [] \<and> ''-'' \<notin> set filenames
      \<and> (\<forall>f \<in> set filenames. re_MatchString (Base f))
      \<and> (\<forall>f \<in> set filenames. ReadFile env f = Inr (content f))
     \<longrightarrow> (\<exists>fs. processFiles env stdin filenames = (Inr fs, stdin)
            \<and> fst ` set fs = Base ` set filenames
            \<and> guessGistName fs = ''''
            \<and> processMessage fs = ''Creating gist...''
            \<and> completionMessage fs = ''Created gist''))
   \<and> (re_MatchString k \<longrightarrow> guessGistName files \<noteq> k)"
proof (intro conjI impI)
  assume a: "filenames \<noteq> [] \<and> ''-'' \<notin> set filenames
      \<and> (\<forall>f \<in> set filenames. re_MatchString (Base f))
      \<and> (\<forall>f \<in> set filenames. ReadFile env f = Inr (content f))"
  then have ne: "filenames \<noteq> []" and real: "''-'' \<notin> set filenames"
    and syn: "\<forall>f \<in> set filenames. re_MatchString (Base f)"
    and rd: "\<forall>f \<in> set filenames. ReadFile env f = Inr (content f)"
    by simp_all
  from loop_files_ok [OF real rd] obtain fs where
    loop: "processFiles_loop env 0 filenames [] stdin = (Inr fs, stdin)"
    by blast
  with ne have run: "processFiles env stdin filenames = (Inr fs, stdin)"
    by (simp add: processFiles_def)
  have keys: "fst ` set fs = Base ` set filenames"
    using loop_keys [OF loop] keys_of_files [OF real, of 0] by simp
  with syn have "real_names fs = {}"
    by (auto simp: real_names_def)
  then have g: "guessGistName fs = ''''" by (rule guessGistName_empty)
  then have "processMessage fs = ''Creating gist...''" "completionMessage fs = ''Created gist''"
    by (simp_all add: processMessage_def completionMessage_def)
  with run keys g show "\<exists>fs. processFiles env stdin filenames = (Inr fs, stdin)
            \<and> fst ` set fs = Base ` set filenames
            \<and> guessGistName fs = ''''
            \<and> processMessage fs = ''Creating gist...''
            \<and> completionMessage fs = ''Created gist''"
    by blast
next
  assume "re_MatchString k"
  then show "guessGistName files \<noteq> k" by (rule guessGistName_not_matching)
qed

theorem processFiles_synthetic_looking_files_witness:
  "[''notes/gistfile5.txt''] \<noteq> []
   \<and> ''-'' \<notin> set [''notes/gistfile5.txt'']
   \<and> Base ''notes/gistfile5.txt'' = ''gistfile5.txt''
   \<and> re_MatchString (Base ''notes/gistfile5.txt'')
   \<and> ReadFile example_env ''notes/gistfile5.txt'' = Inr ''five''
   \<and> processFiles example_env example_stdin [''notes/gistfile5.txt'']
       = (Inr [(''gistfile5.txt'', ''five'')], example_stdin)
   \<and> guessGistName [(''gistfile5.txt'', ''five'')] = ''''
   \<and> processMessage [(''gistfile5.txt'', ''five'')] = ''Creating gist...''
   \<and> guessGistName [(''gistfile5.txt'', ''five''), (''hello.py'', ''print(1)'')] \<noteq> ''gistfile5.txt''"
  using processFiles_synthetic_looking_files
          [of "[''notes/gistfile5.txt'']" example_env "\<lambda>f. projr (example_ReadFile f)" example_stdin
              "''gistfile5.txt''" "[(''gistfile5.txt'', ''five''), (''hello.py'', ''print(1)'')]"]
  by (simp add: example_defs run_defs)

section \<open>Properties of createRun\<close>

lemma Contains_sublist: "Contains s substr \<longleftrightarrow> sublist substr s"
  by (induction s) (simp_all add: sublist_Cons_right)

lemma createRun_collect_fails:
  "processFiles env (In (IO opts)) (default_fileArgs (Filenames opts)) = (Inl err, stdin')
     \<Longrightarrow> createRun env opts =
           (Some (WrapError (''failed to collect files for posting: '' @ Error err) err),
            (IO opts)\<lparr>In := stdin'\<rparr>)"
  by (simp add: createRun_def)

lemma createRun_client_fails:
  "processFiles env (In (IO opts)) (default_fileArgs (Filenames opts)) = (Inr files, stdin')
     \<Longrightarrow> HttpClient opts = Inl err
     \<Longrightarrow> createRun env opts =
           (Some err,
            (IO opts)\<lparr>In := stdin',
              ErrOut := ErrOut (IO opts) @ [Gray env ''-'' @ '' '' @ processMessage files @ [CHR 0x0A]]\<rparr>)"
  by (simp add: createRun_def)

lemma createRun_publish_fails:
  "processFiles env (In (IO opts)) (default_fileArgs (Filenames opts)) = (Inr files, stdin')
     \<Longrightarrow> HttpClient opts = Inr client
     \<Longrightarrow> apiCreate env client (OverridableDefault env) (Description opts) (Public opts) files = Inl err
     \<Longrightarrow> createRun env opts =
           (Some (publish_error env err),
            (IO opts)\<lparr>In := stdin',
              ErrOut := ErrOut (IO opts) @ [Gray env ''-'' @ '' '' @ processMessage files @ [CHR 0x0A]]\<rparr>)"
  by (simp add: createRun_def)

lemma createRun_succeeds:
  "processFiles env (In (IO opts)) (default_fileArgs (Filenames opts)) = (Inr files, stdin')
     \<Longrightarrow> HttpClient opts = Inr client
     \<Longrightarrow> apiCreate env client (OverridableDefault env) (Description opts) (Public opts) files = Inr gist
     \<Longrightarrow> createRun env opts =
           (None,
            (IO opts)\<lparr>In := stdin',
              ErrOut := ErrOut (IO opts)
                @ [Gray env ''-'' @ '' '' @ processMessage files @ [CHR 0x0A],
                   Green env ''???'' @ '' '' @ completionMessage files @ [CHR 0x0A]],
              Out := Out (IO opts) @ [HTMLURL gist @ [CHR 0x0A]]\<rparr>)"
  by (simp add: createRun_def)

text \<open>The four ways a run can go.\<close>

lemma createRun_cases:
  obtains
    (collect) err stdin' where
      "processFiles env (In (IO opts)) (default_fileArgs (Filenames opts)) = (Inl err, stdin')"
  | (client) files stdin' err where
      "processFiles env (In (IO opts)) (default_fileArgs (Filenames opts)) = (Inr files, stdin')"
      "HttpClient opts = Inl err"
  | (publish) files stdin' client err where
      "processFiles env (In (IO opts)) (default_fileArgs (Filenames opts)) = (Inr files, stdin')"
      "HttpClient opts = Inr client"
      "apiCreate env client (OverridableDefault env) (Description opts) (Public opts) files = Inl err"
  | (success) files stdin' client gist where
      "processFiles env (In (IO opts)) (default_fileArgs (Filenames opts)) = (Inr files, stdin')"
      "HttpClient opts = Inr client"
      "apiCreate env client (OverridableDefault env) (Description opts) (Public opts) files = Inr gist"
proof (cases "processFiles env (In (IO opts)) (default_fileArgs (Filenames opts))")
  case (Pair r stdin')
  show ?thesis
  proof (cases r)
    case (Inl err)
    with Pair collect show ?thesis by simp
  next
    case files: (Inr files)
    show ?thesis
    proof (cases "HttpClient opts")
      case (Inl err)
      with Pair files client show ?thesis by simp
    next
      case c: (Inr c)
      show ?thesis
      proof (cases "apiCreate env c (OverridableDefault env) (Description opts) (Public opts) files")
        case (Inl err)
        with Pair files c publish show ?thesis by simp
      next
        case (Inr gist)
        with Pair files c success show ?thesis by simp
      qed
    qed
  qed
qed

text \<open>
  Claim C7. A run of \<open>createRun\<close> returns no error exactly when the collection of the
  files, the call of the client factory and the remote call all succeed; then the primary
  output receives one write, the URL of the gist and a newline, and the status stream the
  progress line and the completion line. When the run returns an error, whichever of the
  three steps failed, nothing is written to the primary output, and the status stream
  receives nothing or the progress line only: no completion line.
\<close>

theorem createRun_output:
  "(case createRun env opts of
      (None, io') \<Rightarrow>
        (\<exists>files stdin' client gist.
            processFiles env (In (IO opts)) (default_fileArgs (Filenames opts)) = (Inr files, stdin')
          \<and> HttpClient opts = Inr client
          \<and> apiCreate env client (OverridableDefault env) (Description opts) (Public opts) files = Inr gist
          \<and> Out io' = Out (IO opts) @ [HTMLURL gist @ [CHR 0x0A]]
          \<and> ErrOut io' = ErrOut (IO opts)
               @ [Gray env ''-'' @ '' '' @ processMessage files @ [CHR 0x0A],
                  Green env ''???'' @ '' '' @ completionMessage files @ [CHR 0x0A]])
    | (Some e, io') \<Rightarrow>
        Out io' = Out (IO opts)
        \<and> (ErrOut io' = ErrOut (IO opts)
           \<or> (\<exists>files stdin'.
                 processFiles env (In (IO opts)) (default_fileArgs (Filenames opts)) = (Inr files, stdin')
               \<and> ErrOut io' = ErrOut (IO opts)
                    @ [Gray env ''-'' @ '' '' @ processMessage files @ [CHR 0x0A]])))
   \<and> (fst (createRun env opts) = None \<longleftrightarrow>
        (\<exists>files stdin' client gist.
            processFiles env (In (IO opts)) (default_fileArgs (Filenames opts)) = (Inr files, stdin')
          \<and> HttpClient opts = Inr client
          \<and> apiCreate env client (OverridableDefault env) (Description opts) (Public opts) files = Inr gist))"
proof (cases rule: createRun_cases [of env opts])
  case (collect err stdin')
  then show ?thesis
    using createRun_collect_fails [OF collect] by simp
next
  case (client files stdin' err)
  then show ?thesis
    using createRun_client_fails [OF client] by simp
next
  case (publish files stdin' client err)
  then show ?thesis
    using createRun_publish_fails [OF publish] by simp
next
  case (success files stdin' client gist)
  then show ?thesis
    using createRun_succeeds [OF success] by simp
qed

theorem createRun_output_witness:
  "createRun example_env (example_opts [''hello.py''])
     = (None,
        \<lparr>In = example_stdin,
           Out = [''https://gist.github.com/aa5a315d61ae9438b18d'' @ [CHR 0x0A]],
           ErrOut = [''- Creating gist hello.py'' @ [CHR 0x0A],
                     ''??? Created gist hello.py'' @ [CHR 0x0A]]\<rparr>)
   \<and> processFiles example_env example_stdin [''hello.py'']
       = (Inr [(''hello.py'', ''print(1)'')], example_stdin)
   \<and> createRun example_env (example_opts [''missing.txt''])
     = (Some (WrapError
          ''failed to collect files for posting: failed to read file missing.txt: open missing.txt: no such file or directory''
          (WrapError ''failed to read file missing.txt: open missing.txt: no such file or directory''
             (ErrorString ''open missing.txt: no such file or directory''))),
        \<lparr>In = example_stdin, Out = [], ErrOut = []\<rparr>)
   \<and> createRun (failing_env ''repo'') (example_opts [''hello.py''])
     = (Some (ErrorString scope_message),
        \<lparr>In = example_stdin, Out = [], ErrOut = [''- Creating gist hello.py'' @ [CHR 0x0A]]\<rparr>)
   \<and> createRun example_env ((example_opts [''hello.py''])\<lparr>HttpClient := Inl (ErrorString ''no token'')\<rparr>)
     = (Some (ErrorString ''no token''),
        \<lparr>In = example_stdin, Out = [], ErrOut = [''- Creating gist hello.py'' @ [CHR 0x0A]]\<rparr>)"
  using createRun_output [of example_env "example_opts [''hello.py'']"]
        createRun_output [of example_env "example_opts [''missing.txt'']"]
        createRun_output [of "failing_env ''repo''" "example_opts [''hello.py'']"]
        createRun_output [of example_env "(example_opts [''hello.py''])\<lparr>HttpClient := Inl (ErrorString ''no token'')\<rparr>"]
  by (simp add: example_defs run_defs)

text \<open>
  Claim C1, as amended. On a successful run whose FileSet has two or more entries, the
  progress line on the status stream is \<open>Creating gist with multiple files\<close> when the
  guessed name is not empty, and the generic \<open>Creating gist...\<close> when it is empty; in both
  cases the primary output receives exactly one line, the URL of the created gist.
\<close>

theorem createRun_progress_message:
  "processFiles env (In (IO opts)) (default_fileArgs (Filenames opts)) = (Inr files, stdin')
     \<and> 2 \<le> length files \<and> fst (createRun env opts) = None
   \<longrightarrow> (\<exists>client gist.
          HttpClient opts = Inr client
        \<and> apiCreate env client (OverridableDefault env) (Description opts) (Public opts) files = Inr gist
        \<and> ErrOut (snd (createRun env opts)) = ErrOut (IO opts)
             @ [Gray env ''-'' @ '' ''
                  @ (if guessGistName files = '''' then ''Creating gist...''
                     else ''Creating gist with multiple files'')
                  @ [CHR 0x0A],
                Green env ''???'' @ '' '' @ completionMessage files @ [CHR 0x0A]]
        \<and> Out (snd (createRun env opts)) = Out (IO opts) @ [HTMLURL gist @ [CHR 0x0A]])"
proof
  assume a: "processFiles env (In (IO opts)) (default_fileArgs (Filenames opts)) = (Inr files, stdin')
     \<and> 2 \<le> length files \<and> fst (createRun env opts) = None"
  then have run: "processFiles env (In (IO opts)) (default_fileArgs (Filenames opts)) = (Inr files, stdin')"
    and many: "2 \<le> length files" and ok: "fst (createRun env opts) = None"
    by simp_all
  have msg: "processMessage files =
      (if guessGistName files = '''' then ''Creating gist...'' else ''Creating gist with multiple files'')"
    using many by (simp add: processMessage_def)
  show "\<exists>client gist.
          HttpClient opts = Inr client
        \<and> apiCreate env client (OverridableDefault env) (Description opts) (Public opts) files = Inr gist
        \<and> ErrOut (snd (createRun env opts)) = ErrOut (IO opts)
             @ [Gray env ''-'' @ '' ''
                  @ (if guessGistName files = '''' then ''Creating gist...''
                     else ''Creating gist with multiple files'')
                  @ [CHR 0x0A],
                Green env ''???'' @ '' '' @ completionMessage files @ [CHR 0x0A]]
        \<and> Out (snd (createRun env opts)) = Out (IO opts) @ [HTMLURL gist @ [CHR 0x0A]]"
  proof (cases "HttpClient opts")
    case (Inl err)
    from createRun_client_fails [OF run Inl] ok show ?thesis by simp
  next
    case c: (Inr client)
    show ?thesis
    proof (cases "apiCreate env client (OverridableDefault env) (Description opts) (Public opts) files")
      case (Inl err)
      from createRun_publish_fails [OF run c Inl] ok show ?thesis by simp
    next
      case (Inr gist)
      have "createRun env opts =
           (None,
            (IO opts)\<lparr>In := stdin',
              ErrOut := ErrOut (IO opts)
                @ [Gray env ''-'' @ '' '' @ processMessage files @ [CHR 0x0A],
                   Green env ''???'' @ '' '' @ completionMessage files @ [CHR 0x0A]],
              Out := Out (IO opts) @ [HTMLURL gist @ [CHR 0x0A]]\<rparr>)"
        by (rule createRun_succeeds [OF run c Inr])
      then have "ErrOut (snd (createRun env opts)) = ErrOut (IO opts)
                @ [Gray env ''-'' @ '' '' @ processMessage files @ [CHR 0x0A],
                   Green env ''???'' @ '' '' @ completionMessage files @ [CHR 0x0A]]"
        and "Out (snd (createRun env opts)) = Out (IO opts) @ [HTMLURL gist @ [CHR 0x0A]]"
        by simp_all
      with c Inr show ?thesis unfolding msg by blast
    qed
  qed
qed

theorem createRun_progress_message_witness:
  "processFiles example_env (In (IO (example_opts [''hello.py'', ''src/a/main.go''])))
       (default_fileArgs (Filenames (example_opts [''hello.py'', ''src/a/main.go''])))
     = (Inr [(''hello.py'', ''print(1)''), (''main.go'', ''package a'')], example_stdin)
   \<and> (2::nat) \<le> length [(''hello.py'', ''print(1)''), (''main.go'', ''package a'')]
   \<and> fst (createRun example_env (example_opts [''hello.py'', ''src/a/main.go''])) = None
   \<and> guessGistName [(''hello.py'', ''print(1)''), (''main.go'', ''package a'')] = ''hello.py''
   \<and> ErrOut (snd (createRun example_env (example_opts [''hello.py'', ''src/a/main.go''])))
       = [''- Creating gist with multiple files'' @ [CHR 0x0A],
          ''??? Created gist hello.py'' @ [CHR 0x0A]]
   \<and> Out (snd (createRun example_env (example_opts [''hello.py'', ''src/a/main.go''])))
       = [''https://gist.github.com/aa5a315d61ae9438b18d'' @ [CHR 0x0A]]
   \<and> processFiles example_env (In (IO (example_opts [''-'', ''-''])))
       (default_fileArgs (Filenames (example_opts [''-'', ''-''])))
     = (Inr [(''gistfile0.txt'', ''from stdin''), (''gistfile1.txt'', '''')],
        \<lparr>state = [], calls = [CallReadAll, CallClose, CallReadAll, CallClose]\<rparr>)
   \<and> fst (createRun example_env (example_opts [''-'', ''-''])) = None
   \<and> guessGistName [(''gistfile0.txt'', ''from stdin''), (''gistfile1.txt'', '''')] = ''''
   \<and> ErrOut (snd (createRun example_env (example_opts [''-'', ''-''])))
       = [''- Creating gist...'' @ [CHR 0x0A], ''??? Created gist'' @ [CHR 0x0A]]"
  using createRun_progress_message
          [of example_env "example_opts [''hello.py'', ''src/a/main.go'']"
              "[(''hello.py'', ''print(1)''), (''main.go'', ''package a'')]" example_stdin]
        createRun_progress_message
          [of example_env "example_opts [''-'', ''-'']"
              "[(''gistfile0.txt'', ''from stdin''), (''gistfile1.txt'', '''')]"
              "\<lparr>state = [], calls = [CallReadAll, CallClose, CallReadAll, CallClose]\<rparr>"]
  by (simp add: example_defs run_defs)

text \<open>
  The claim as first stated fails on the two files \<open>notes/gistfile5.txt\<close> and
  \<open>gistfile6.txt\<close>: the FileSet has two entries, no name is guessed, the run succeeds, and
  the status stream receives the generic progress line, which does not mention multiple
  files.
\<close>

theorem createRun_progress_message_counterexample:
  "processFiles example_env (In (IO (example_opts [''notes/gistfile5.txt'', ''gistfile6.txt''])))
       (default_fileArgs (Filenames (example_opts [''notes/gistfile5.txt'', ''gistfile6.txt''])))
     = (Inr [(''gistfile5.txt'', ''five''), (''gistfile6.txt'', ''six'')], example_stdin)
   \<and> length [(''gistfile5.txt'', ''five''), (''gistfile6.txt'', ''six'')] = 2
   \<and> guessGistName [(''gistfile5.txt'', ''five''), (''gistfile6.txt'', ''six'')] = ''''
   \<and> createRun example_env (example_opts [''notes/gistfile5.txt'', ''gistfile6.txt''])
     = (None,
        \<lparr>In = example_stdin,
           Out = [''https://gist.github.com/aa5a315d61ae9438b18d'' @ [CHR 0x0A]],
           ErrOut = [''- Creating gist...'' @ [CHR 0x0A], ''??? Created gist'' @ [CHR 0x0A]]\<rparr>)
   \<and> \<not> Contains (''- Creating gist...'' @ [CHR 0x0A]) ''multiple files''
   \<and> \<not> Contains (''??? Created gist'' @ [CHR 0x0A]) ''multiple files''"
  by (simp add: example_defs run_defs)

text \<open>
  Claim C6, as amended. When the remote call fails, \<open>createRun\<close> returns the
  re-authentication message exactly when the error is, or wraps, an HTTP error whose scope
  field is not empty and does not contain the string \<open>gist\<close>; every other failure of the
  remote call, an HTTP error with an empty scope field included, is returned as the
  generic error that wraps it. Nothing is written to the primary output.
\<close>

theorem createRun_publish_failure:
  "(processFiles env (In (IO opts)) (default_fileArgs (Filenames opts)) = (Inr files, stdin')
      \<and> HttpClient opts = Inr client
      \<and> apiCreate env client (OverridableDefault env) (Description opts) (Public opts) files = Inl err
    \<longrightarrow> fst (createRun env opts) =
          Some (if \<exists>h. errors_As err = Some h \<and> OAuthScopes h \<noteq> ''''
                       \<and> \<not> sublist ''gist'' (OAuthScopes h)
                then ErrorString scope_message
                else WrapError (Red env ''X'' @ '' Failed to create gist: '' @ Error err) err)
        \<and> (fst (createRun env opts) = Some (ErrorString scope_message) \<longleftrightarrow>
             (\<exists>h. errors_As err = Some h \<and> OAuthScopes h \<noteq> ''''
                  \<and> \<not> sublist ''gist'' (OAuthScopes h)))
        \<and> Out (snd (createRun env opts)) = Out (IO opts))
   \<and> sublist ''Please re-authenticate'' scope_message"
proof (intro conjI impI)
  assume a: "processFiles env (In (IO opts)) (default_fileArgs (Filenames opts)) = (Inr files, stdin')
      \<and> HttpClient opts = Inr client
      \<and> apiCreate env client (OverridableDefault env) (Description opts) (Public opts) files = Inl err"
  then have run: "processFiles env (In (IO opts)) (default_fileArgs (Filenames opts)) = (Inr files, stdin')"
    and c: "HttpClient opts = Inr client"
    and fail: "apiCreate env client (OverridableDefault env) (Description opts) (Public opts) files = Inl err"
    by simp_all
  note res = createRun_publish_fails [OF run c fail]
  have pe: "publish_error env err =
      (if \<exists>h. errors_As err = Some h \<and> OAuthScopes h \<noteq> '''' \<and> \<not> sublist ''gist'' (OAuthScopes h)
       then ErrorString scope_message
       else WrapError (Red env ''X'' @ '' Failed to create gist: '' @ Error err) err)"
    by (cases "errors_As err") (simp_all add: publish_error_def Contains_sublist)
  show first: "fst (createRun env opts) =
          Some (if \<exists>h. errors_As err = Some h \<and> OAuthScopes h \<noteq> ''''
                       \<and> \<not> sublist ''gist'' (OAuthScopes h)
                then ErrorString scope_message
                else WrapError (Red env ''X'' @ '' Failed to create gist: '' @ Error err) err)"
    unfolding res pe by simp
  show "fst (createRun env opts) = Some (ErrorString scope_message) \<longleftrightarrow>
             (\<exists>h. errors_As err = Some h \<and> OAuthScopes h \<noteq> ''''
                  \<and> \<not> sublist ''gist'' (OAuthScopes h))"
    unfolding first by simp
  show "Out (snd (createRun env opts)) = Out (IO opts)"
    unfolding res by simp
next
  have "Contains scope_message ''Please re-authenticate''"
    by (simp add: scope_message_def)
  then show "sublist ''Please re-authenticate'' scope_message"
    by (simp only: Contains_sublist)
qed

theorem createRun_publish_failure_witness:
  "processFiles (failing_env ''repo, read:org'') (In (IO (example_opts [''hello.py''])))
       (default_fileArgs (Filenames (example_opts [''hello.py''])))
     = (Inr [(''hello.py'', ''print(1)'')], example_stdin)
   \<and> HttpClient (example_opts [''hello.py'']) = Inr ()
   \<and> apiCreate (failing_env ''repo, read:org'') () ''github.com'' ''an example'' False
        [(''hello.py'', ''print(1)'')] = Inl (http_failure ''repo, read:org'')
   \<and> errors_As (http_failure ''repo, read:org'')
       = Some \<lparr>OAuthScopes = ''repo, read:org'', ErrorText = ''HTTP 404: Not Found''\<rparr>
   \<and> \<not> sublist ''gist'' ''repo, read:org''
   \<and> fst (createRun (failing_env ''repo, read:org'') (example_opts [''hello.py'']))
       = Some (ErrorString scope_message)
   \<and> fst (createRun (failing_env ''repo, gist'') (example_opts [''hello.py'']))
       = Some (WrapError ''X Failed to create gist: HTTP 404: Not Found'' (http_failure ''repo, gist''))"
  using createRun_publish_failure
          [of "failing_env ''repo, read:org''" "example_opts [''hello.py'']"
              "[(''hello.py'', ''print(1)'')]" example_stdin "()" "http_failure ''repo, read:org''"]
        createRun_publish_failure
          [of "failing_env ''repo, gist''" "example_opts [''hello.py'']"
              "[(''hello.py'', ''print(1)'')]" example_stdin "()" "http_failure ''repo, gist''"]
  by (simp add: example_defs run_defs Contains_sublist [symmetric])

text \<open>
  The claim as first stated fails on an HTTP error with an empty scope field: the string
  \<open>gist\<close> is absent from the field, and the run returns the generic error.
\<close>

theorem createRun_publish_failure_counterexample:
  "processFiles (failing_env '''') (In (IO (example_opts [''hello.py''])))
       (default_fileArgs (Filenames (example_opts [''hello.py''])))
     = (Inr [(''hello.py'', ''print(1)'')], example_stdin)
   \<and> apiCreate (failing_env '''') () ''github.com'' ''an example'' False
        [(''hello.py'', ''print(1)'')] = Inl (http_failure '''')
   \<and> errors_As (http_failure '''') = Some \<lparr>OAuthScopes = '''', ErrorText = ''HTTP 404: Not Found''\<rparr>
   \<and> \<not> Contains (OAuthScopes \<lparr>OAuthScopes = '''', ErrorText = ''HTTP 404: Not Found''\<rparr>) ''gist''
   \<and> fst (createRun (failing_env '''') (example_opts [''hello.py'']))
       = Some (WrapError ''X Failed to create gist: HTTP 404: Not Found'' (http_failure ''''))
   \<and> fst (createRun (failing_env '''') (example_opts [''hello.py''])) \<noteq> Some (ErrorString scope_message)"
  by (simp add: example_defs run_defs)

end
